theory Spec2Isabelle
  imports Main
begin

section \<open>Values of the host language\<close>

text \<open>
  The value pipeline is generic in the wrapped value, so the model needs a
  universe of JavaScript values. Only what the library inspects is kept:
  \<^item> primitives, with integers standing for numbers;
  \<^item> symbols, told apart by an identity number (two \<^verbatim>\<open>Symbol(..)\<close> calls never
    give the same symbol);
  \<^item> arrays as lists;
  \<^item> plain objects, given by what their properties \<^verbatim>\<open>this\<close> and \<^verbatim>\<open>args\<close>
    read as (\<open>Undefined\<close> for an absent property). These are the only two
    properties the library reads by name; a plain object of the model has
    no \<^verbatim>\<open>length\<close> and no indexed property;
  \<^item> error objects, by their name;
  \<^item> functions, by reference (see \<open>fref\<close>);
  \<^item> promises, by the way they settle: the model abstracts from time, so a
    promise is the outcome it settles with, or \<open>Forever\<close> when nothing ever
    settles it;
  \<^item> references to containers (\<^verbatim>\<open>Flow\<close> instances) on the heap.
\<close>

datatype fkind = PlainFunction | AsyncFunction | GeneratorFunction | AsyncGeneratorFunction

text \<open>
  A function reference is either a function of the caller, known by a number,
  the kind of its constructor and its declared number of parameters, or one of
  the closures the library creates itself: the default error handler
  \<^verbatim>\<open>(): void => {}\<close>, the transformer of \<^verbatim>\<open>delay(ms)\<close> and the
  transformer of \<^verbatim>\<open>retry(attempts)\<close>, each with the variable it captures.
\<close>

datatype fref =
    UserFn nat fkind nat
  | NoopHandler
  | DelayFn int
  | RetryFn int

datatype jsval =
    Undefined
  | Null
  | Bool bool
  | Num int
  | Str string
  | Sym nat
  | Arr "jsval list"
  | Obj jsval jsval
  | Err string
  | Fn fref
  | Promise settle
  | FlowRef nat
and settle =
    Fulfilled jsval
  | Rejected jsval
  | Forever

text \<open>The result of calling a function: it returns a value or throws one.\<close>

datatype completion = Return jsval | Throw jsval

text \<open>
  Ghost events, kept in the world for the claims that count invocations:
  \<^item> \<open>Invoked f ctx xs\<close>: \<^verbatim>\<open>executeTransformation\<close> applies the transformer \<open>f\<close>
    to the binding \<open>ctx\<close> and the arguments \<open>xs\<close>;
  \<^item> \<open>Handled h e\<close>: the catch block of \<^verbatim>\<open>pipe\<close> calls the handler \<open>h\<close> with
    the error \<open>e\<close>;
  \<^item> \<open>Caught i e\<close>: the catch block of the retry loop runs at loop index \<open>i\<close>
    with the error \<open>e\<close>.
\<close>

datatype event =
    Invoked fref jsval "jsval list"
  | Handled fref jsval
  | Caught int jsval

subsection \<open>Operators of the language that the library uses\<close>

fun typeof :: "jsval \<Rightarrow> string" where
  "typeof Undefined = ''undefined''"
| "typeof Null = ''object''"
| "typeof (Bool _) = ''boolean''"
| "typeof (Num _) = ''number''"
| "typeof (Str _) = ''string''"
| "typeof (Sym _) = ''symbol''"
| "typeof (Arr _) = ''object''"
| "typeof (Obj _ _) = ''object''"
| "typeof (Err _) = ''object''"
| "typeof (Fn _) = ''function''"
| "typeof (Promise _) = ''object''"
| "typeof (FlowRef _) = ''object''"

text \<open>Truthiness: \<^verbatim>\<open>undefined\<close>, \<^verbatim>\<open>null\<close>, \<^verbatim>\<open>false\<close>, \<^verbatim>\<open>0\<close> and \<^verbatim>\<open>''\<close> are falsy.\<close>

fun truthy :: "jsval \<Rightarrow> bool" where
  "truthy Undefined = False"
| "truthy Null = False"
| "truthy (Bool b) = b"
| "truthy (Num n) = (n \<noteq> 0)"
| "truthy (Str s) = (s \<noteq> [])"
| "truthy _ = True"

text \<open>Property reads \<^verbatim>\<open>x.this\<close> and \<^verbatim>\<open>x.args\<close> on an object.\<close>

fun prop_this :: "jsval \<Rightarrow> jsval" where
  "prop_this (Obj t a) = t"
| "prop_this _ = Undefined"

fun prop_args :: "jsval \<Rightarrow> jsval" where
  "prop_args (Obj t a) = a"
| "prop_args _ = Undefined"

fun isArray :: "jsval \<Rightarrow> bool" where
  "isArray (Arr _) = True"
| "isArray _ = False"

text \<open>The operator \<^verbatim>\<open>a ?? b\<close>.\<close>

definition nullish :: "jsval \<Rightarrow> jsval \<Rightarrow> jsval" where
  "nullish a b = (if a = Undefined \<or> a = Null then b else a)"

text \<open>Indexing \<^verbatim>\<open>xs[i]\<close>: out of range (also index \<open>-1\<close>) reads \<^verbatim>\<open>undefined\<close>.\<close>

definition index :: "jsval list \<Rightarrow> int \<Rightarrow> jsval" where
  "index xs i = (if 0 \<le> i \<and> i < int (length xs) then xs ! nat i else Undefined)"

fun instanceofPromise :: "jsval \<Rightarrow> bool" where
  "instanceofPromise (Promise _) = True"
| "instanceofPromise _ = False"

fun kind_of :: "fref \<Rightarrow> fkind" where
  "kind_of (UserFn n k ar) = k"
| "kind_of NoopHandler = PlainFunction"
| "kind_of (DelayFn ms) = AsyncFunction"
| "kind_of (RetryFn attempts) = AsyncFunction"

fun kind_name :: "fkind \<Rightarrow> string" where
  "kind_name PlainFunction = ''Function''"
| "kind_name AsyncFunction = ''AsyncFunction''"
| "kind_name GeneratorFunction = ''GeneratorFunction''"
| "kind_name AsyncGeneratorFunction = ''AsyncGeneratorFunction''"

text \<open>\<^verbatim>\<open>f.constructor.name\<close> of a function value, and \<^verbatim>\<open>f.length\<close>.\<close>

fun constructor_name :: "jsval \<Rightarrow> string" where
  "constructor_name (Fn f) = kind_name (kind_of f)"
| "constructor_name _ = ''''"

fun fn_length :: "fref \<Rightarrow> nat" where
  "fn_length (UserFn n k ar) = ar"
| "fn_length NoopHandler = 0"
| "fn_length (DelayFn ms) = 1"
| "fn_length (RetryFn attempts) = 1"

text \<open>
  \<^verbatim>\<open>Promise.resolve(v)\<close> returns \<open>v\<close> itself when it is a promise and a promise
  fulfilled with \<open>v\<close> otherwise; \<open>settle_of v\<close> is how that promise settles. It is
  also what \<^verbatim>\<open>await v\<close> observes, and how the promise of an async function
  settles when its body returns \<open>v\<close>.
\<close>

fun settle_of :: "jsval \<Rightarrow> settle" where
  "settle_of (Promise s) = s"
| "settle_of v = Fulfilled v"

definition promise_resolve :: "jsval \<Rightarrow> jsval" where
  "promise_resolve v = Promise (settle_of v)"

text \<open>
  The argument list that \<^verbatim>\<open>Function.prototype.apply\<close> builds from its second
  argument: none for \<^verbatim>\<open>undefined\<close> and \<^verbatim>\<open>null\<close>, the elements of an array,
  a \<^verbatim>\<open>TypeError\<close> for any other primitive, and for another object its indexed
  properties up to its \<^verbatim>\<open>length\<close> (a function has its parameter count as
  length and no indexed property; the other objects of the model have no length).
\<close>

fun createListFromArrayLike :: "jsval \<Rightarrow> jsval + jsval list" where
  "createListFromArrayLike Undefined = Inr []"
| "createListFromArrayLike Null = Inr []"
| "createListFromArrayLike (Arr xs) = Inr xs"
| "createListFromArrayLike (Obj t a) = Inr []"
| "createListFromArrayLike (Err n) = Inr []"
| "createListFromArrayLike (Fn f) = Inr (replicate (fn_length f) Undefined)"
| "createListFromArrayLike (Promise s) = Inr []"
| "createListFromArrayLike (FlowRef a) = Inr []"
| "createListFromArrayLike _ = Inl (Err ''TypeError'')"

section \<open>The state of the program\<close>

text \<open>
  A container is an object with identity (\<^verbatim>\<open>catch\<close> mutates it and returns
  it), so containers live on a heap and are named by their address, the index
  in allocation order.
\<close>

record Flow =
  val :: jsval
  errorHandler :: fref
  isAsync :: bool

record 'u world =
  heap :: "Flow list"
  currentValue :: jsval
  user :: 'u
  trace :: "event list"

text \<open>
  The world: the heap of containers, the static \<^verbatim>\<open>FlowContext.currentValue\<close>,
  the state of the caller, and the ghost trace.

  The functions of the caller are a parameter: function number \<open>n\<close>, called with
  a binding and arguments, returns or throws, and may change the caller's own
  state \<open>'u\<close>, which the library never looks at. A function of the caller
  does not call back into the library while it runs. An async function of the
  caller is one that returns a promise; as the model abstracts from time, what
  it does until its promise settles is part of the call.
\<close>

type_synonym 'u env = "nat \<Rightarrow> jsval \<Rightarrow> jsval list \<Rightarrow> 'u \<Rightarrow> completion \<times> 'u"

text \<open>\<^verbatim>\<open>FlowContext.returnOriginal\<close> and \<^verbatim>\<open>FlowContext.returnBoth\<close>.\<close>

definition returnOriginal :: jsval where
  "returnOriginal = Sym 0"

definition returnBoth :: jsval where
  "returnBoth = Sym 1"

text \<open>\<^verbatim>\<open>new Flow(initialValue, isAsync)\<close>: the handler starts as the no-op.\<close>

definition new_Flow :: "jsval \<Rightarrow> bool \<Rightarrow> 'u world \<Rightarrow> nat \<times> 'u world" where
  "new_Flow initialValue async w =
     (length (heap w),
      w\<lparr>heap := heap w @ [\<lparr>val = initialValue, errorHandler = NoopHandler, isAsync = async\<rparr>]\<rparr>)"

section \<open>The closures of the library\<close>

text \<open>
  The body of the transformer of \<^verbatim>\<open>retry\<close>, from loop index \<open>i\<close> on:
  \<^verbatim>\<open>for (let i = 0; i < attempts; i++) { try { return await Promise.resolve(value) }
  catch (error) { lastError = error; if (i === attempts - 1) throw lastError } }\<close>.
  The result is how the promise of the async function settles, with the
  passes through the catch block. Falling out of the loop returns \<^verbatim>\<open>undefined\<close>.
\<close>

function retry_loop :: "int \<Rightarrow> int \<Rightarrow> jsval \<Rightarrow> settle \<times> event list" where
  "retry_loop attempts i v =
     (if i < attempts then
        (case settle_of v of
           Fulfilled r \<Rightarrow> (settle_of r, [])
         | Forever \<Rightarrow> (Forever, [])
         | Rejected error \<Rightarrow>
             (if i = attempts - 1 then (Rejected error, [Caught i error])
              else (case retry_loop attempts (i + 1) v of
                      (s, evs) \<Rightarrow> (s, Caught i error # evs))))
      else (Fulfilled Undefined, []))"
  by pat_completeness auto
termination
  by (relation "measure (\<lambda>(attempts, i, v). nat (attempts - i))") auto

declare retry_loop.simps [simp del]

text \<open>
  Calling a function value with a binding and an argument list. The
  transformer of \<^verbatim>\<open>delay\<close> waits for its timer and returns its first
  argument: the promise of the async function settles as that value does.
\<close>

fun call_fn :: "'u env \<Rightarrow> fref \<Rightarrow> jsval \<Rightarrow> jsval list \<Rightarrow> 'u world \<Rightarrow> completion \<times> 'u world" where
  "call_fn env (UserFn n k ar) ctx xs w =
     (case env n ctx xs (user w) of (c, u') \<Rightarrow> (c, w\<lparr>user := u'\<rparr>))"
| "call_fn env NoopHandler ctx xs w = (Return Undefined, w)"
| "call_fn env (DelayFn ms) ctx xs w = (Return (Promise (settle_of (index xs 0))), w)"
| "call_fn env (RetryFn attempts) ctx xs w =
     (case retry_loop attempts 0 (index xs 0) of
        (s, evs) \<Rightarrow> (Return (Promise s), w\<lparr>trace := trace w @ evs\<rparr>))"

section \<open>The transformation engine\<close>

definition isValidFunctionCallSpec :: "jsval \<Rightarrow> bool" where
  "isValidFunctionCallSpec spec =
     (if \<not> truthy spec \<or> typeof spec \<noteq> ''object'' then False
      else (prop_this spec \<noteq> Undefined \<or> isArray (prop_args spec)))"

definition prepareTransformationArgs :: "jsval \<Rightarrow> jsval list \<Rightarrow> jsval \<times> jsval" where
  "prepareTransformationArgs v args =
     (if truthy (index args 0) \<and> isValidFunctionCallSpec (index args 0) then
        (nullish (prop_this (index args 0)) Null, nullish (prop_args (index args 0)) (Arr []))
      else (Null, Arr (v # args)))"

definition executeTransformation ::
  "'u env \<Rightarrow> jsval \<Rightarrow> jsval \<Rightarrow> jsval \<Rightarrow> 'u world \<Rightarrow> completion \<times> 'u world" where
  "executeTransformation env transformer context callArgs w =
     (case transformer of
        Fn f \<Rightarrow>
          (case createListFromArrayLike callArgs of
             Inl e \<Rightarrow> (Throw e, w)
           | Inr xs \<Rightarrow>
               call_fn env f context xs (w\<lparr>trace := trace w @ [Invoked f context xs]\<rparr>))
      | _ \<Rightarrow> (Return transformer, w))"

definition determineFinalValue :: "jsval \<Rightarrow> jsval \<Rightarrow> jsval list \<Rightarrow> jsval" where
  "determineFinalValue result originalValue args =
     (let lastArgument = index args (int (length args) - 1) in
      if lastArgument = returnOriginal then originalValue
      else if lastArgument = returnBoth then Arr [result, originalValue]
      else result)"

text \<open>
  \<open>handleSyncTransformation\<close> either throws (\<open>Inl\<close>) or returns the address of
  the new container.
\<close>

definition handleSyncTransformation ::
  "'u env \<Rightarrow> Flow \<Rightarrow> jsval \<Rightarrow> jsval list \<Rightarrow> 'u world \<Rightarrow> (jsval + nat) \<times> 'u world" where
  "handleSyncTransformation env this transformer args w =
     (let v = val this in
      case prepareTransformationArgs v args of
        (context, callArgs) \<Rightarrow>
          (case executeTransformation env transformer context callArgs w of
             (Throw e, w') \<Rightarrow> (Inl e, w')
           | (Return result, w') \<Rightarrow>
               (case new_Flow (determineFinalValue result v args) False w' of
                  (b, w'') \<Rightarrow> (Inr b, w''))))"

text \<open>
  The async arrow \<open>asyncTransform\<close>: how its promise settles, and the world
  after the pending computation has run. An \<^verbatim>\<open>await\<close> of a rejected promise
  throws inside the async function, which rejects its promise; an \<^verbatim>\<open>await\<close>
  of a promise that never settles leaves it pending for ever.
\<close>

definition asyncTransform ::
  "'u env \<Rightarrow> Flow \<Rightarrow> jsval \<Rightarrow> jsval list \<Rightarrow> 'u world \<Rightarrow> settle \<times> 'u world" where
  "asyncTransform env this transformer args w =
     (case settle_of (promise_resolve (val this)) of
        Forever \<Rightarrow> (Forever, w)
      | Rejected e \<Rightarrow> (Rejected e, w)
      | Fulfilled v \<Rightarrow>
          (case prepareTransformationArgs v args of
             (context, callArgs) \<Rightarrow>
               (case executeTransformation env transformer context callArgs w of
                  (Throw e, w') \<Rightarrow> (Rejected e, w')
                | (Return r, w') \<Rightarrow>
                    (case settle_of (promise_resolve r) of
                       Forever \<Rightarrow> (Forever, w')
                     | Rejected e \<Rightarrow> (Rejected e, w')
                     | Fulfilled result \<Rightarrow>
                         (settle_of (determineFinalValue result v args), w')))))"

definition handleAsyncTransformation ::
  "'u env \<Rightarrow> Flow \<Rightarrow> jsval \<Rightarrow> jsval list \<Rightarrow> 'u world \<Rightarrow> (jsval + nat) \<times> 'u world" where
  "handleAsyncTransformation env this transformer args w =
     (case asyncTransform env this transformer args w of
        (s, w') \<Rightarrow>
          (case new_Flow (Promise s) (isAsync this) w' of
             (b, w'') \<Rightarrow> (Inr b, w'')))"

text \<open>
  \<open>pipe\<close> on the container at address \<open>a\<close>. The result is \<open>Inr\<close> the address
  of the container it returns, or \<open>Inl\<close> the value it throws, which happens
  only when the error handler itself throws. In deferred mode the pending
  computation is run to its settlement when it is created: the trace and the
  caller's state then hold what it does when it runs.
\<close>

definition pipe ::
  "'u env \<Rightarrow> nat \<Rightarrow> jsval \<Rightarrow> jsval list \<Rightarrow> 'u world \<Rightarrow> (jsval + nat) \<times> 'u world" where
  "pipe env a transformer args w =
     (let this = heap w ! a;
          w0 = w\<lparr>currentValue := val this\<rparr>
      in case (if \<not> isAsync this then handleSyncTransformation env this transformer args w0
               else handleAsyncTransformation env this transformer args w0) of
           (Inr b, w1) \<Rightarrow> (Inr b, w1)
         | (Inl error, w1) \<Rightarrow>
             (case call_fn env (errorHandler (heap w1 ! a)) (FlowRef a) [error]
                     (w1\<lparr>trace := trace w1 @ [Handled (errorHandler (heap w1 ! a)) error]\<rparr>) of
                (Throw e', w2) \<Rightarrow> (Inl e', w2)
              | (Return r, w2) \<Rightarrow>
                  (case new_Flow Undefined (isAsync (heap w2 ! a)) w2 of
                     (b, w3) \<Rightarrow> (Inr b, w3))))"

section \<open>The operations of a container\<close>

text \<open>
  The accessor, the registration of a handler, and the two derived operators
  whose transformer is a closure of the library. The other derived operators
  (\<^verbatim>\<open>tap\<close>, \<^verbatim>\<open>map\<close>, \<^verbatim>\<open>filter\<close>, \<^verbatim>\<open>when\<close>) are \<^verbatim>\<open>pipe\<close> calls without
  extra arguments whose transformer only calls functions of the caller: they
  are \<open>pipe\<close> with a function of the caller as transformer.

  The accessor writes nothing; it returns the world as it is, so that programs
  can be sequenced.
\<close>

definition get :: "nat \<Rightarrow> 'u world \<Rightarrow> jsval \<times> 'u world" where
  "get a w =
     (let this = heap w ! a in
      if isAsync this then (promise_resolve (val this), w) else (val this, w))"

definition catch :: "nat \<Rightarrow> fref \<Rightarrow> 'u world \<Rightarrow> nat \<times> 'u world" where
  "catch a h w = (a, w\<lparr>heap := (heap w)[a := (heap w ! a)\<lparr>errorHandler := h\<rparr>]\<rparr>)"

definition delay :: "'u env \<Rightarrow> nat \<Rightarrow> int \<Rightarrow> 'u world \<Rightarrow> (jsval + nat) \<times> 'u world" where
  "delay env a ms w = pipe env a (Fn (DelayFn ms)) [] w"

definition retry :: "'u env \<Rightarrow> nat \<Rightarrow> int \<Rightarrow> 'u world \<Rightarrow> (jsval + nat) \<times> 'u world" where
  "retry env a attempts w = pipe env a (Fn (RetryFn attempts)) [] w"

section \<open>The factory\<close>

definition flow :: "jsval \<Rightarrow> 'u world \<Rightarrow> nat \<times> 'u world" where
  "flow initialValue w =
     (let async = (instanceofPromise initialValue \<or>
                   (typeof initialValue = ''function'' \<and>
                    constructor_name initialValue = ''AsyncFunction''))
      in new_Flow initialValue async w)"

section \<open>Programs over the public interface\<close>

text \<open>
  A caller's program is a sequence of calls of the factory and of the
  operations; \<open>run\<close> executes it. A \<^verbatim>\<open>pipe\<close> that throws leaves the world as
  it is at the throw.
\<close>

datatype op =
    NewFlow jsval
  | Pipe nat jsval "jsval list"
  | Get nat
  | Catch nat fref
  | Delay nat int
  | Retry nat int

fun exec :: "'u env \<Rightarrow> op \<Rightarrow> 'u world \<Rightarrow> 'u world" where
  "exec env (NewFlow v) w = snd (flow v w)"
| "exec env (Pipe a t args) w = snd (pipe env a t args w)"
| "exec env (Get a) w = snd (get a w)"
| "exec env (Catch a h) w = snd (catch a h w)"
| "exec env (Delay a ms) w = snd (delay env a ms w)"
| "exec env (Retry a n) w = snd (retry env a n w)"

fun run :: "'u env \<Rightarrow> op list \<Rightarrow> 'u world \<Rightarrow> 'u world" where
  "run env [] w = w"
| "run env (x # xs) w = run env xs (exec env x w)"

fun is_stage :: "op \<Rightarrow> bool" where
  "is_stage (Pipe a t args) = True"
| "is_stage (Delay a ms) = True"
| "is_stage (Retry a n) = True"
| "is_stage _ = False"

fun is_Invoked :: "event \<Rightarrow> bool" where
  "is_Invoked (Invoked f ctx xs) = True"
| "is_Invoked _ = False"

definition invocations :: "event list \<Rightarrow> nat" where
  "invocations tr = length (filter is_Invoked tr)"

fun is_Handled :: "event \<Rightarrow> bool" where
  "is_Handled (Handled h e) = True"
| "is_Handled _ = False"

text \<open>The calls of error handlers that a trace records, in order.\<close>

definition handler_calls :: "event list \<Rightarrow> event list" where
  "handler_calls tr = filter is_Handled tr"

section \<open>What the specification says, in its own words\<close>

text \<open>
  The shape of an invocation override: an object that has a context binding
  field or an array-valued args field. A field that reads \<^verbatim>\<open>undefined\<close> counts
  as absent.
\<close>

fun has_override_shape :: "jsval \<Rightarrow> bool" where
  "has_override_shape (Obj t a) = (t \<noteq> Undefined \<or> (case a of Arr xs \<Rightarrow> True | _ \<Rightarrow> False))"
| "has_override_shape _ = False"

text \<open>
  The binding and the argument list of a stage: with an override as first
  extra argument, its context (default \<^verbatim>\<open>null\<close>) and its args (default the empty
  sequence), a default standing in for a field that is \<^verbatim>\<open>undefined\<close> or
  \<^verbatim>\<open>null\<close>; otherwise \<^verbatim>\<open>null\<close> and the wrapped value followed by all extra
  arguments.
\<close>

fun spec_call_convention :: "jsval \<Rightarrow> jsval list \<Rightarrow> jsval \<times> jsval" where
  "spec_call_convention v [] = (Null, Arr [v])"
| "spec_call_convention v (x # xs) =
     (if has_override_shape x then
        (if prop_this x = Undefined \<or> prop_this x = Null then Null else prop_this x,
         if prop_args x = Undefined \<or> prop_args x = Null then Arr [] else prop_args x)
      else (Null, Arr (v # x # xs)))"

text \<open>
  Result shaping by the last extra argument: the keep-original sentinel keeps
  the pre-transform value, the return-both sentinel pairs the computed result
  with it, anything else leaves the computed result.
\<close>

fun spec_shape :: "jsval \<Rightarrow> jsval \<Rightarrow> jsval list \<Rightarrow> jsval" where
  "spec_shape result original [] = result"
| "spec_shape result original (x # xs) =
     (if last (x # xs) = returnOriginal then original
      else if last (x # xs) = returnBoth then Arr [result, original]
      else result)"

text \<open>
  The seeds that start a container in deferred mode: a pending computation,
  or a function whose constructor is the one of async functions.
\<close>

fun spec_deferred_seed :: "jsval \<Rightarrow> bool" where
  "spec_deferred_seed (Promise s) = True"
| "spec_deferred_seed (Fn f) = (kind_of f = AsyncFunction)"
| "spec_deferred_seed _ = False"

text \<open>
  The error, if any, that the stage \<^verbatim>\<open>pipe(t, ...args)\<close> on the container at \<open>a\<close>
  raises synchronously: none in deferred mode, where the stage runs inside the
  pending computation.
\<close>

definition sync_failure :: "'u env \<Rightarrow> 'u world \<Rightarrow> nat \<Rightarrow> jsval \<Rightarrow> jsval list \<Rightarrow> jsval option" where
  "sync_failure env w a t args =
     (if isAsync (heap w ! a) then None
      else (case prepareTransformationArgs (val (heap w ! a)) args of
              (ctx, ca) \<Rightarrow>
                (case fst (executeTransformation env t ctx ca (w\<lparr>currentValue := val (heap w ! a)\<rparr>)) of
                   Throw e \<Rightarrow> Some e
                 | Return r \<Rightarrow> None)))"

section \<open>Example programs\<close>

text \<open>
  Five functions of a caller, over a counter of the calls made: number 0 doubles
  an integer (as \<^verbatim>\<open>v => v * 2\<close> does on integers) and throws on anything else,
  number 1 always throws \<open>Err ''boom''\<close>, number 2 returns \<^verbatim>\<open>undefined\<close>,
  number 4 is an async function whose promise rejects with \<open>Err ''late''\<close>, and
  every other number throws \<open>Err ''handler''\<close>.
\<close>

fun example_env :: "nat env" where
  "example_env n ctx xs u =
     (if n = 0 then
        (case xs of
           Num k # rest \<Rightarrow> (Return (Num (k * 2)), Suc u)
         | _ \<Rightarrow> (Throw (Err ''TypeError''), Suc u))
      else if n = 1 then (Throw (Err ''boom''), Suc u)
      else if n = 2 then (Return Undefined, Suc u)
      else if n = 4 then (Return (Promise (Rejected (Err ''late''))), Suc u)
      else (Throw (Err ''handler''), Suc u))"

definition double_fn :: fref where
  "double_fn = UserFn 0 PlainFunction 1"

definition boom_fn :: fref where
  "boom_fn = UserFn 1 PlainFunction 0"

definition quiet_handler :: fref where
  "quiet_handler = UserFn 2 PlainFunction 1"

definition failing_handler :: fref where
  "failing_handler = UserFn 3 PlainFunction 1"

definition rejecting_fn :: fref where
  "rejecting_fn = UserFn 4 AsyncFunction 1"

text \<open>The world before any container exists.\<close>

definition world0 :: "nat world" where
  "world0 = \<lparr>heap = [], currentValue = Undefined, user = 0, trace = []\<rparr>"

text \<open>\<^verbatim>\<open>flow(5)\<close>, and \<^verbatim>\<open>flow(p)\<close> for a promise \<open>p\<close> rejected with \<open>Err ''boom''\<close>.\<close>

definition world5 :: "nat world" where
  "world5 = snd (flow (Num 5) world0)"

definition world_rejected :: "nat world" where
  "world_rejected = snd (flow (Promise (Rejected (Err ''boom''))) world0)"

text \<open>\<^verbatim>\<open>flow(5).catch(h)\<close> for the handler that returns and for the one that throws.\<close>

definition world5_quiet :: "nat world" where
  "world5_quiet = snd (catch 0 quiet_handler world5)"

definition world5_failing :: "nat world" where
  "world5_failing = snd (catch 0 failing_handler world5)"

text \<open>\<^verbatim>\<open>flow(p)\<close> for a promise \<open>p\<close> fulfilled with 5.\<close>

definition world_deferred5 :: "nat world" where
  "world_deferred5 = snd (flow (Promise (Fulfilled (Num 5))) world0)"

section \<open>Frame lemmas\<close>

text \<open>The retry loop records only passes through its catch block.\<close>

lemma retry_loop_events: "ev \<in> set (snd (retry_loop n i v)) \<Longrightarrow> \<exists>j e. ev = Caught j e"
proof (induction n i v arbitrary: ev rule: retry_loop.induct)
  case (1 attempts i v)
  show ?case
  proof (cases "i < attempts")
    case False
    then have "retry_loop attempts i v = (Fulfilled Undefined, [])"
      by (subst retry_loop.simps) simp
    with "1.prems" show ?thesis by simp
  next
    case True
    note lt = this
    show ?thesis
    proof (cases "settle_of v")
      case (Fulfilled r)
      with lt have "retry_loop attempts i v = (settle_of r, [])"
        by (subst retry_loop.simps) simp
      with "1.prems" show ?thesis by simp
    next
      case Forever
      with lt have "retry_loop attempts i v = (Forever, [])"
        by (subst retry_loop.simps) simp
      with "1.prems" show ?thesis by simp
    next
      case (Rejected e)
      show ?thesis
      proof (cases "i = attempts - 1")
        case True
        with lt Rejected have "retry_loop attempts i v = (Rejected e, [Caught i e])"
          by (subst retry_loop.simps) simp
        with "1.prems" show ?thesis by simp
      next
        case False
        with lt Rejected have "retry_loop attempts i v =
            (fst (retry_loop attempts (i + 1) v), Caught i e # snd (retry_loop attempts (i + 1) v))"
          by (subst retry_loop.simps) (simp split: prod.splits)
        with "1.prems" "1.IH" [OF lt Rejected False] show ?thesis by auto
      qed
    qed
  qed
qed

lemma retry_loop_invocations: "invocations (tr @ snd (retry_loop n i v)) = invocations tr"
proof -
  have "\<forall>ev \<in> set (snd (retry_loop n i v)). \<not> is_Invoked ev"
    using retry_loop_events [of _ n i v] by fastforce
  then have "filter is_Invoked (snd (retry_loop n i v)) = []"
    by (simp add: filter_empty_conv)
  then show ?thesis by (simp add: invocations_def)
qed

lemma call_fn_heap [simp]: "heap (snd (call_fn env f ctx xs w)) = heap w"
  by (cases f) (simp_all split: prod.splits)

lemma call_fn_currentValue [simp]:
  "currentValue (snd (call_fn env f ctx xs w)) = currentValue w"
  by (cases f) (simp_all split: prod.splits)

lemma call_fn_invocations [simp]:
  "invocations (trace (snd (call_fn env f ctx xs w))) = invocations (trace w)"
proof (cases f)
  case (RetryFn n)
  then show ?thesis
    using retry_loop_invocations [of "trace w" n 0 "index xs 0"]
    by (simp split: prod.splits) (metis snd_conv)
qed (simp_all split: prod.splits)

lemma invocations_snoc [simp]:
  "invocations (tr @ [Invoked f c xs]) = Suc (invocations tr)"
  "invocations (tr @ [Handled h e]) = invocations tr"
  by (simp_all add: invocations_def)

lemma executeTransformation_heap [simp]:
  "heap (snd (executeTransformation env t ctx ca w)) = heap w"
  by (simp add: executeTransformation_def split: jsval.splits sum.splits)

lemma executeTransformation_currentValue [simp]:
  "currentValue (snd (executeTransformation env t ctx ca w)) = currentValue w"
  by (simp add: executeTransformation_def split: jsval.splits sum.splits)

lemma executeTransformation_invocations:
  "invocations (trace (snd (executeTransformation env t ctx ca w))) \<le> Suc (invocations (trace w))"
  "invocations (trace w) \<le> invocations (trace (snd (executeTransformation env t ctx ca w)))"
  by (simp_all add: executeTransformation_def split: jsval.splits sum.splits)

lemma world5_eq:
  "world5 = \<lparr>heap = [\<lparr>val = Num 5, errorHandler = NoopHandler, isAsync = False\<rparr>],
              currentValue = Undefined, user = 0, trace = []\<rparr>"
  by (simp add: world5_def world0_def flow_def new_Flow_def)

lemma world_rejected_eq:
  "world_rejected =
     \<lparr>heap = [\<lparr>val = Promise (Rejected (Err ''boom'')), errorHandler = NoopHandler, isAsync = True\<rparr>],
      currentValue = Undefined, user = 0, trace = []\<rparr>"
  by (simp add: world_rejected_def world0_def flow_def new_Flow_def)

lemma world_deferred5_eq:
  "world_deferred5 =
     \<lparr>heap = [\<lparr>val = Promise (Fulfilled (Num 5)), errorHandler = NoopHandler, isAsync = True\<rparr>],
      currentValue = Undefined, user = 0, trace = []\<rparr>"
  by (simp add: world_deferred5_def world0_def flow_def new_Flow_def)

lemma flow_async_iff:
  "(instanceofPromise v \<or> (typeof v = ''function'' \<and> constructor_name v = ''AsyncFunction''))
     = spec_deferred_seed v"
proof (cases v)
  case (Fn f)
  then show ?thesis by (cases "kind_of f") simp_all
qed simp_all

lemma prepare_eq_spec: "prepareTransformationArgs v args = spec_call_convention v args"
proof (cases args)
  case Nil
  then show ?thesis
    by (simp add: prepareTransformationArgs_def index_def)
next
  case (Cons x xs)
  have "(truthy x \<and> isValidFunctionCallSpec x) = has_override_shape x"
  proof (cases x)
    case (Obj t a)
    then show ?thesis by (cases a) (simp_all add: isValidFunctionCallSpec_def)
  qed (simp_all add: isValidFunctionCallSpec_def)
  with Cons show ?thesis
    by (simp add: prepareTransformationArgs_def index_def nullish_def)
qed

lemma determineFinalValue_eq_spec: "determineFinalValue r v args = spec_shape r v args"
proof (cases args)
  case Nil
  then show ?thesis
    by (simp add: determineFinalValue_def index_def returnOriginal_def returnBoth_def)
next
  case (Cons x xs)
  then have "index args (int (length args) - 1) = last args"
    by (simp add: index_def last_conv_nth)
  with Cons show ?thesis
    by (simp add: determineFinalValue_def Let_def)
qed

text \<open>What one stage does to the heap: it appends the new container, if any.\<close>

lemma new_Flow_eq:
  "new_Flow v b w =
     (length (heap w), w\<lparr>heap := heap w @ [\<lparr>val = v, errorHandler = NoopHandler, isAsync = b\<rparr>]\<rparr>)"
  by (simp add: new_Flow_def)

lemma handleSyncTransformation_heap:
  "\<exists>cs. heap (snd (handleSyncTransformation env this t args w)) = heap w @ cs"
  unfolding handleSyncTransformation_def Let_def new_Flow_eq
  by (auto split: prod.splits completion.splits
      dest: arg_cong [where f = "\<lambda>p. heap (snd p)"])

lemma handleSyncTransformation_invocations:
  "invocations (trace (snd (handleSyncTransformation env this t args w)))
     \<le> Suc (invocations (trace w))"
proof -
  obtain ctx ca where p: "prepareTransformationArgs (val this) args = (ctx, ca)"
    by (cases "prepareTransformationArgs (val this) args")
  obtain c w' where e: "executeTransformation env t ctx ca w = (c, w')"
    by (cases "executeTransformation env t ctx ca w")
  from executeTransformation_invocations(1) [of env t ctx ca w] e
  have "invocations (trace w') \<le> Suc (invocations (trace w))" by simp
  with p e show ?thesis
    by (cases c) (simp_all add: handleSyncTransformation_def Let_def new_Flow_eq)
qed

lemma asyncTransform_heap [simp]:
  "heap (snd (asyncTransform env this t args w)) = heap w"
proof -
  have "\<And>ctx ca c w'. executeTransformation env t ctx ca w = (c, w') \<Longrightarrow> heap w' = heap w"
    by (metis executeTransformation_heap snd_conv)
  then show ?thesis
    unfolding asyncTransform_def
    by (auto split: settle.splits prod.splits completion.splits)
qed

lemma asyncTransform_invocations:
  "invocations (trace (snd (asyncTransform env this t args w))) \<le> Suc (invocations (trace w))"
proof -
  have "\<And>ctx ca c w'. executeTransformation env t ctx ca w = (c, w') \<Longrightarrow>
          invocations (trace w') \<le> Suc (invocations (trace w))"
    by (metis executeTransformation_invocations(1) snd_conv)
  then show ?thesis
    unfolding asyncTransform_def
    by (auto split: settle.splits prod.splits completion.splits)
qed

text \<open>The four ways a \<^verbatim>\<open>pipe\<close> call can go.\<close>

lemma pipe_sync_return:
  assumes "\<not> isAsync (heap w ! a)"
    and "prepareTransformationArgs (val (heap w ! a)) args = (ctx, ca)"
    and "executeTransformation env t ctx ca (w\<lparr>currentValue := val (heap w ! a)\<rparr>) = (Return r, w1)"
  shows "pipe env a t args w =
           (Inr (length (heap w)),
            w1\<lparr>heap := heap w @ [\<lparr>val = determineFinalValue r (val (heap w ! a)) args,
                                   errorHandler = NoopHandler, isAsync = False\<rparr>]\<rparr>)"
proof -
  from assms(3) have "heap w1 = heap w"
    by (metis executeTransformation_heap snd_conv select_convs(1) surjective update_convs(2))
  with assms show ?thesis
    by (simp add: pipe_def Let_def handleSyncTransformation_def new_Flow_eq)
qed

lemma pipe_sync_throw:
  assumes "\<not> isAsync (heap w ! a)"
    and "prepareTransformationArgs (val (heap w ! a)) args = (ctx, ca)"
    and "executeTransformation env t ctx ca (w\<lparr>currentValue := val (heap w ! a)\<rparr>) = (Throw e, w1)"
    and "call_fn env (errorHandler (heap w ! a)) (FlowRef a) [e]
           (w1\<lparr>trace := trace w1 @ [Handled (errorHandler (heap w ! a)) e]\<rparr>) = (c, w2)"
  shows "pipe env a t args w =
           (case c of
              Throw e' \<Rightarrow> (Inl e', w2)
            | Return r \<Rightarrow>
                (Inr (length (heap w)),
                 w2\<lparr>heap := heap w @ [\<lparr>val = Undefined, errorHandler = NoopHandler,
                                        isAsync = False\<rparr>]\<rparr>))"
proof -
  from assms(3) have h1: "heap w1 = heap w"
    by (metis executeTransformation_heap snd_conv select_convs(1) surjective update_convs(2))
  from assms(4) have h2: "heap w2 = heap w1"
    by (metis call_fn_heap snd_conv select_convs(1) surjective update_convs(4))
  from assms h1 h2 show ?thesis
    by (cases c) (simp_all add: pipe_def Let_def handleSyncTransformation_def new_Flow_eq)
qed

lemma pipe_async:
  assumes "isAsync (heap w ! a)"
    and "asyncTransform env (heap w ! a) t args (w\<lparr>currentValue := val (heap w ! a)\<rparr>) = (s, w1)"
  shows "pipe env a t args w =
           (Inr (length (heap w)),
            w1\<lparr>heap := heap w @ [\<lparr>val = Promise s, errorHandler = NoopHandler,
                                   isAsync = True\<rparr>]\<rparr>)"
proof -
  from assms(2) have "heap w1 = heap w"
    by (metis asyncTransform_heap snd_conv select_convs(1) surjective update_convs(2))
  with assms show ?thesis
    by (simp add: pipe_def Let_def handleAsyncTransformation_def new_Flow_eq)
qed

lemma pipe_heap: "\<exists>cs. heap (snd (pipe env a t args w)) = heap w @ cs"
proof (cases "isAsync (heap w ! a)")
  case True
  obtain s w1 where
    "asyncTransform env (heap w ! a) t args (w\<lparr>currentValue := val (heap w ! a)\<rparr>) = (s, w1)"
    by (cases "asyncTransform env (heap w ! a) t args (w\<lparr>currentValue := val (heap w ! a)\<rparr>)")
  from pipe_async [OF True this] show ?thesis by simp
next
  case False
  obtain ctx ca where p: "prepareTransformationArgs (val (heap w ! a)) args = (ctx, ca)"
    by (cases "prepareTransformationArgs (val (heap w ! a)) args")
  obtain c w1 where
    e: "executeTransformation env t ctx ca (w\<lparr>currentValue := val (heap w ! a)\<rparr>) = (c, w1)"
    by (cases "executeTransformation env t ctx ca (w\<lparr>currentValue := val (heap w ! a)\<rparr>)")
  show ?thesis
  proof (cases c)
    case (Return r)
    with pipe_sync_return [OF False p] e show ?thesis by simp
  next
    case (Throw x)
    obtain c2 w2 where
      h: "call_fn env (errorHandler (heap w ! a)) (FlowRef a) [x]
            (w1\<lparr>trace := trace w1 @ [Handled (errorHandler (heap w ! a)) x]\<rparr>) = (c2, w2)"
      by (cases "call_fn env (errorHandler (heap w ! a)) (FlowRef a) [x]
            (w1\<lparr>trace := trace w1 @ [Handled (errorHandler (heap w ! a)) x]\<rparr>)")
    from e Throw have h1: "heap w1 = heap w"
      by (metis executeTransformation_heap snd_conv select_convs(1) surjective update_convs(2))
    from h have h2: "heap w2 = heap w1"
      by (metis call_fn_heap snd_conv select_convs(1) surjective update_convs(4))
    from e Throw have e': "executeTransformation env t ctx ca
        (w\<lparr>currentValue := val (heap w ! a)\<rparr>) = (Throw x, w1)" by simp
    from pipe_sync_throw [OF False p e' h] h1 h2 show ?thesis
      by (cases c2) simp_all
  qed
qed

lemma pipe_invocations:
  "invocations (trace (snd (pipe env a t args w))) \<le> Suc (invocations (trace w))"
proof (cases "isAsync (heap w ! a)")
  case True
  obtain s w1 where
    at: "asyncTransform env (heap w ! a) t args (w\<lparr>currentValue := val (heap w ! a)\<rparr>) = (s, w1)"
    by (cases "asyncTransform env (heap w ! a) t args (w\<lparr>currentValue := val (heap w ! a)\<rparr>)")
  from asyncTransform_invocations [of env "heap w ! a" t args "w\<lparr>currentValue := val (heap w ! a)\<rparr>"] at
  have "invocations (trace w1) \<le> Suc (invocations (trace w))" by simp
  with pipe_async [OF True at] show ?thesis by simp
next
  case False
  obtain ctx ca where p: "prepareTransformationArgs (val (heap w ! a)) args = (ctx, ca)"
    by (cases "prepareTransformationArgs (val (heap w ! a)) args")
  obtain c w1 where
    e: "executeTransformation env t ctx ca (w\<lparr>currentValue := val (heap w ! a)\<rparr>) = (c, w1)"
    by (cases "executeTransformation env t ctx ca (w\<lparr>currentValue := val (heap w ! a)\<rparr>)")
  from executeTransformation_invocations(1)
    [of env t ctx ca "w\<lparr>currentValue := val (heap w ! a)\<rparr>"] e
  have le: "invocations (trace w1) \<le> Suc (invocations (trace w))" by simp
  show ?thesis
  proof (cases c)
    case (Return r)
    with pipe_sync_return [OF False p] e le show ?thesis by simp
  next
    case (Throw x)
    obtain c2 w2 where
      h: "call_fn env (errorHandler (heap w ! a)) (FlowRef a) [x]
            (w1\<lparr>trace := trace w1 @ [Handled (errorHandler (heap w ! a)) x]\<rparr>) = (c2, w2)"
      by (cases "call_fn env (errorHandler (heap w ! a)) (FlowRef a) [x]
            (w1\<lparr>trace := trace w1 @ [Handled (errorHandler (heap w ! a)) x]\<rparr>)")
    from call_fn_invocations [of env "errorHandler (heap w ! a)" "FlowRef a" "[x]"
        "w1\<lparr>trace := trace w1 @ [Handled (errorHandler (heap w ! a)) x]\<rparr>"] h
    have i2: "invocations (trace w2) = invocations (trace w1)" by simp
    from e Throw have e': "executeTransformation env t ctx ca
        (w\<lparr>currentValue := val (heap w ! a)\<rparr>) = (Throw x, w1)" by simp
    from pipe_sync_throw [OF False p e' h] i2 le show ?thesis
      by (cases c2) simp_all
  qed
qed

text \<open>Every operation keeps the containers that exist, up to their handler.\<close>

lemma exec_heap:
  "\<exists>cs. heap (exec env x w) = heap w @ cs \<or>
        (\<exists>a h. heap (exec env x w) = (heap w)[a := (heap w ! a)\<lparr>errorHandler := h\<rparr>])"
proof (cases x)
  case (Pipe a t args)
  then show ?thesis using pipe_heap [of env a t args w] by auto
next
  case (Delay a ms)
  then show ?thesis using pipe_heap [of env a "Fn (DelayFn ms)" "[]" w] by (auto simp: delay_def)
next
  case (Retry a n)
  then show ?thesis using pipe_heap [of env a "Fn (RetryFn n)" "[]" w] by (auto simp: retry_def)
next
  case (Catch a h)
  then show ?thesis by (auto simp: catch_def)
next
  case (Get a)
  then show ?thesis by (simp add: get_def Let_def)
next
  case (NewFlow v)
  then show ?thesis by (simp add: flow_def Let_def new_Flow_eq)
qed

lemma exec_frame:
  assumes "a < length (heap w)"
  shows "a < length (heap (exec env x w)) \<and>
         val (heap (exec env x w) ! a) = val (heap w ! a) \<and>
         isAsync (heap (exec env x w) ! a) = isAsync (heap w ! a)"
proof -
  from exec_heap [of env x w] obtain cs where
    "heap (exec env x w) = heap w @ cs \<or>
       (\<exists>b h. heap (exec env x w) = (heap w)[b := (heap w ! b)\<lparr>errorHandler := h\<rparr>])" by blast
  then show ?thesis
  proof
    assume "heap (exec env x w) = heap w @ cs"
    with assms show ?thesis by (simp add: nth_append)
  next
    assume "\<exists>b h. heap (exec env x w) = (heap w)[b := (heap w ! b)\<lparr>errorHandler := h\<rparr>]"
    then obtain b h where "heap (exec env x w) = (heap w)[b := (heap w ! b)\<lparr>errorHandler := h\<rparr>]"
      by blast
    with assms show ?thesis by (cases "a = b") simp_all
  qed
qed

lemma run_frame:
  "a < length (heap w) \<Longrightarrow>
     a < length (heap (run env xs w)) \<and>
     val (heap (run env xs w) ! a) = val (heap w ! a) \<and>
     isAsync (heap (run env xs w) ! a) = isAsync (heap w ! a)"
proof (induction xs arbitrary: w)
  case Nil
  then show ?case by simp
next
  case (Cons x xs)
  from exec_frame [OF Cons.prems, of env x] Cons.IH [of "exec env x w"]
  show ?case by simp
qed

lemma exec_invocations:
  "invocations (trace (exec env x w)) \<le> invocations (trace w) + (if is_stage x then 1 else 0)"
proof (cases x)
  case (Pipe a t args)
  then show ?thesis using pipe_invocations [of env a t args w] by simp
next
  case (Delay a ms)
  then show ?thesis using pipe_invocations [of env a "Fn (DelayFn ms)" "[]" w] by (simp add: delay_def)
next
  case (Retry a n)
  then show ?thesis using pipe_invocations [of env a "Fn (RetryFn n)" "[]" w] by (simp add: retry_def)
qed (simp_all add: catch_def get_def Let_def flow_def new_Flow_eq)

lemma run_invocations:
  "invocations (trace (run env xs w)) \<le> invocations (trace w) + length (filter is_stage xs)"
proof (induction xs arbitrary: w)
  case Nil
  then show ?case by simp
next
  case (Cons x xs)
  from exec_invocations [of env x w] Cons.IH [of "exec env x w"]
  show ?case by (simp split: if_splits)
qed

lemma call_fn_trace: "\<exists>evs. trace (snd (call_fn env f ctx xs w)) = trace w @ evs"
  by (cases f) (simp_all split: prod.splits)

lemma executeTransformation_Fn_trace:
  "\<exists>evs. trace (snd (executeTransformation env (Fn f) ctx (Arr xs) w))
           = trace w @ Invoked f ctx xs # evs"
  using call_fn_trace [of env f ctx xs "w\<lparr>trace := trace w @ [Invoked f ctx xs]\<rparr>"]
  by (auto simp: executeTransformation_def)

section \<open>Classification of the seed\<close>

text \<open>
  C7. The factory classifies the seed once: the container it creates is in
  deferred mode exactly when the seed is a pending computation or a function
  made by the constructor of async functions, and in immediate mode for every
  other seed. The mode is a field set at construction; no program over the
  public interface changes it afterwards.
\<close>

theorem flow_classifies_seed_once:
  "flow seed w =
     (length (heap w),
      w\<lparr>heap := heap w @ [\<lparr>val = seed, errorHandler = NoopHandler,
                             isAsync = spec_deferred_seed seed\<rparr>]\<rparr>) \<and>
   isAsync (heap (run env ops (snd (flow seed w))) ! fst (flow seed w)) = spec_deferred_seed seed"
proof -
  have eq: "flow seed w =
     (length (heap w),
      w\<lparr>heap := heap w @ [\<lparr>val = seed, errorHandler = NoopHandler,
                             isAsync = spec_deferred_seed seed\<rparr>]\<rparr>)"
    by (simp add: flow_def Let_def new_Flow_eq flow_async_iff)
  then have "fst (flow seed w) < length (heap (snd (flow seed w)))" by simp
  from run_frame [OF this, of env ops] eq show ?thesis by simp
qed

theorem flow_classifies_seed_once_witness:
  "isAsync (heap (run example_env [Pipe 0 (Fn double_fn) [], Catch 0 quiet_handler, Get 0]
                   (snd (flow (Fn (UserFn 7 AsyncFunction 0)) world0)))
            ! fst (flow (Fn (UserFn 7 AsyncFunction 0)) world0)) \<and>
   \<not> isAsync (heap (run example_env [Delay 0 10, Get 1]
                   (snd (flow (Fn (UserFn 7 AsyncGeneratorFunction 0)) world0)))
            ! fst (flow (Fn (UserFn 7 AsyncGeneratorFunction 0)) world0))"
proof -
  have "spec_deferred_seed (Fn (UserFn 7 AsyncFunction 0))"
    and "\<not> spec_deferred_seed (Fn (UserFn 7 AsyncGeneratorFunction 0))"
    by simp_all
  with flow_classifies_seed_once [of "Fn (UserFn 7 AsyncFunction 0)" world0 example_env
      "[Pipe 0 (Fn double_fn) [], Catch 0 quiet_handler, Get 0]"]
    flow_classifies_seed_once [of "Fn (UserFn 7 AsyncGeneratorFunction 0)" world0 example_env
      "[Delay 0 10, Get 1]"]
  show ?thesis by blast
qed

lemma pipe_invokes_callable:
  assumes "if isAsync (heap w ! a) then settle_of (val (heap w ! a)) = Fulfilled v
           else val (heap w ! a) = v"
    and "prepareTransformationArgs v args = (ctx, Arr xs)"
  shows "\<exists>evs. trace (snd (pipe env a (Fn f) args w)) = trace w @ Invoked f ctx xs # evs"
proof -
  let ?c = "heap w ! a"
  let ?w0 = "w\<lparr>currentValue := val ?c\<rparr>"
  note mode = assms(1) and p = assms(2)
  obtain c w1 where e: "executeTransformation env (Fn f) ctx (Arr xs) ?w0 = (c, w1)"
    by (cases "executeTransformation env (Fn f) ctx (Arr xs) ?w0")
  from executeTransformation_Fn_trace [of env f ctx xs ?w0] e
  obtain evs where t1: "trace w1 = trace w @ Invoked f ctx xs # evs" by auto
  show ?thesis
  proof (cases "isAsync ?c")
    case False
    with mode p have p': "prepareTransformationArgs (val ?c) args = (ctx, Arr xs)" by simp
    show ?thesis
    proof (cases c)
      case (Return r)
      with pipe_sync_return [OF False p'] e t1 show ?thesis by simp
    next
      case (Throw x)
      let ?h = "errorHandler ?c"
      obtain c2 w2 where
        h: "call_fn env ?h (FlowRef a) [x] (w1\<lparr>trace := trace w1 @ [Handled ?h x]\<rparr>) = (c2, w2)"
        by (cases "call_fn env ?h (FlowRef a) [x] (w1\<lparr>trace := trace w1 @ [Handled ?h x]\<rparr>)")
      from call_fn_trace [of env ?h "FlowRef a" "[x]" "w1\<lparr>trace := trace w1 @ [Handled ?h x]\<rparr>"] h
      obtain evs2 where "trace w2 = (trace w1 @ [Handled ?h x]) @ evs2" by auto
      with t1 have t2: "trace w2 = trace w @ Invoked f ctx xs # (evs @ Handled ?h x # evs2)"
        by simp
      from e Throw have e': "executeTransformation env (Fn f) ctx (Arr xs) ?w0 = (Throw x, w1)"
        by simp
      from pipe_sync_throw [OF False p' e' h] t2 show ?thesis
        by (cases c2) simp_all
    qed
  next
    case True
    with mode have s: "settle_of (val ?c) = Fulfilled v" by simp
    obtain st w2 where at: "asyncTransform env ?c (Fn f) args ?w0 = (st, w2)"
      by (cases "asyncTransform env ?c (Fn f) args ?w0")
    from at s p e have "w2 = w1"
      by (cases c) (auto simp: asyncTransform_def promise_resolve_def split: settle.splits)
    with pipe_async [OF True at] t1 show ?thesis by simp
  qed
qed

text \<open>A deferred stage, by what its pending computation meets.\<close>

lemma pipe_async_unsettled:
  assumes "isAsync (heap w ! a)" and "settle_of (val (heap w ! a)) = s"
    and "s = Forever \<or> (\<exists>e. s = Rejected e)"
  shows "pipe env a t args w =
           (Inr (length (heap w)),
            w\<lparr>currentValue := val (heap w ! a),
              heap := heap w @ [\<lparr>val = Promise s, errorHandler = NoopHandler,
                                   isAsync = True\<rparr>]\<rparr>)"
proof -
  from assms(2,3) have
    "asyncTransform env (heap w ! a) t args (w\<lparr>currentValue := val (heap w ! a)\<rparr>)
       = (s, w\<lparr>currentValue := val (heap w ! a)\<rparr>)"
    by (auto simp: asyncTransform_def promise_resolve_def)
  from pipe_async [OF assms(1) this] show ?thesis by simp
qed

lemma pipe_async_throw:
  assumes "isAsync (heap w ! a)" and "settle_of (val (heap w ! a)) = Fulfilled v"
    and "prepareTransformationArgs v args = (ctx, ca)"
    and "executeTransformation env t ctx ca (w\<lparr>currentValue := val (heap w ! a)\<rparr>) = (Throw e, w1)"
  shows "pipe env a t args w =
           (Inr (length (heap w)),
            w1\<lparr>heap := heap w @ [\<lparr>val = Promise (Rejected e), errorHandler = NoopHandler,
                                   isAsync = True\<rparr>]\<rparr>)"
proof -
  from assms(2-4) have
    "asyncTransform env (heap w ! a) t args (w\<lparr>currentValue := val (heap w ! a)\<rparr>)
       = (Rejected e, w1)"
    by (simp add: asyncTransform_def promise_resolve_def)
  from pipe_async [OF assms(1) this] show ?thesis .
qed

lemma pipe_async_return:
  assumes "isAsync (heap w ! a)" and "settle_of (val (heap w ! a)) = Fulfilled v"
    and "prepareTransformationArgs v args = (ctx, ca)"
    and "executeTransformation env t ctx ca (w\<lparr>currentValue := val (heap w ! a)\<rparr>) = (Return p, w1)"
  shows "pipe env a t args w =
           (Inr (length (heap w)),
            w1\<lparr>heap := heap w @
               [\<lparr>val = Promise (case settle_of p of
                                   Fulfilled r \<Rightarrow> settle_of (determineFinalValue r v args)
                                 | Rejected e \<Rightarrow> Rejected e
                                 | Forever \<Rightarrow> Forever),
                 errorHandler = NoopHandler, isAsync = True\<rparr>]\<rparr>)"
proof -
  from assms(2-4) have
    "asyncTransform env (heap w ! a) t args (w\<lparr>currentValue := val (heap w ! a)\<rparr>)
       = (case settle_of p of
            Fulfilled r \<Rightarrow> settle_of (determineFinalValue r v args)
          | Rejected e \<Rightarrow> Rejected e
          | Forever \<Rightarrow> Forever, w1)"
    by (simp add: asyncTransform_def promise_resolve_def split: settle.splits)
  from pipe_async [OF assms(1) this] show ?thesis .
qed

lemma get_new:
  "get (length hp) (w\<lparr>heap := hp @ [c]\<rparr>) =
     (if isAsync c then promise_resolve (val c) else val c, w\<lparr>heap := hp @ [c]\<rparr>)"
  by (simp add: get_def Let_def)

section \<open>Result shaping\<close>

text \<open>
  C4. The shaping step follows the last extra argument: the keep-original
  sentinel makes the stage's result the pre-transform value, the return-both
  sentinel makes it the pair of the computed result and the pre-transform
  value, and anything else leaves the computed result. A stage whose
  transformer returns wraps the shaped result: directly in immediate mode, as
  the settlement of its pending computation in deferred mode. In particular
  \<^verbatim>\<open>flow(5).pipe(v => v * 2, $orig).get()\<close> is 5 and
  \<^verbatim>\<open>flow(5).pipe(v => v * 2, $both).get()\<close> is the pair (10, 5).
\<close>

theorem stage_result_shaping:
  "determineFinalValue r v args = spec_shape r v args \<and>
   (a < length (heap w) \<longrightarrow> \<not> isAsync (heap w ! a) \<longrightarrow>
    prepareTransformationArgs (val (heap w ! a)) args = (ctx, ca) \<longrightarrow>
    executeTransformation env t ctx ca (w\<lparr>currentValue := val (heap w ! a)\<rparr>) = (Return r, w1) \<longrightarrow>
      fst (pipe env a t args w) = Inr (length (heap w)) \<and>
      fst (get (length (heap w)) (snd (pipe env a t args w)))
        = spec_shape r (val (heap w ! a)) args) \<and>
   (a < length (heap w) \<longrightarrow> isAsync (heap w ! a) \<longrightarrow>
    settle_of (val (heap w ! a)) = Fulfilled v \<longrightarrow>
    prepareTransformationArgs v args = (ctx, ca) \<longrightarrow>
    executeTransformation env t ctx ca (w\<lparr>currentValue := val (heap w ! a)\<rparr>) = (Return p, w1) \<longrightarrow>
    settle_of p = Fulfilled r \<longrightarrow>
      fst (pipe env a t args w) = Inr (length (heap w)) \<and>
      fst (get (length (heap w)) (snd (pipe env a t args w)))
        = Promise (settle_of (spec_shape r v args))) \<and>
   fst (get 1 (snd (pipe example_env 0 (Fn double_fn) [returnOriginal] world5))) = Num 5 \<and>
   fst (get 1 (snd (pipe example_env 0 (Fn double_fn) [returnBoth] world5)))
     = Arr [Num 10, Num 5]"
proof (intro conjI impI)
  show "determineFinalValue r v args = spec_shape r v args"
    by (rule determineFinalValue_eq_spec)
next
  assume "\<not> isAsync (heap w ! a)"
    and "prepareTransformationArgs (val (heap w ! a)) args = (ctx, ca)"
    and "executeTransformation env t ctx ca (w\<lparr>currentValue := val (heap w ! a)\<rparr>) = (Return r, w1)"
  from pipe_sync_return [OF this]
  show "fst (pipe env a t args w) = Inr (length (heap w))"
    and "fst (get (length (heap w)) (snd (pipe env a t args w)))
           = spec_shape r (val (heap w ! a)) args"
    by (simp_all add: get_new determineFinalValue_eq_spec)
next
  assume "isAsync (heap w ! a)"
    and "settle_of (val (heap w ! a)) = Fulfilled v"
    and "prepareTransformationArgs v args = (ctx, ca)"
    and "executeTransformation env t ctx ca (w\<lparr>currentValue := val (heap w ! a)\<rparr>) = (Return p, w1)"
    and sp: "settle_of p = Fulfilled r"
  from pipe_async_return [OF this(1-4)] sp
  show "fst (pipe env a t args w) = Inr (length (heap w))"
    and "fst (get (length (heap w)) (snd (pipe env a t args w)))
           = Promise (settle_of (spec_shape r v args))"
    by (simp_all add: get_new determineFinalValue_eq_spec promise_resolve_def)
next
  have p: "prepareTransformationArgs (Num 5) [returnOriginal] = (Null, Arr [Num 5, returnOriginal])"
    by (simp add: prepare_eq_spec returnOriginal_def)
  have e: "executeTransformation example_env (Fn double_fn) Null (Arr [Num 5, returnOriginal])
             (world5\<lparr>currentValue := Num 5\<rparr>)
           = (Return (Num 10),
              world5\<lparr>currentValue := Num 5, user := 1,
                     trace := [Invoked double_fn Null [Num 5, returnOriginal]]\<rparr>)"
    by (simp add: executeTransformation_def double_fn_def world5_eq)
  from pipe_sync_return [of world5 0 "[returnOriginal]" Null "Arr [Num 5, returnOriginal]"
      example_env "Fn double_fn" "Num 10"] p e
  show "fst (get 1 (snd (pipe example_env 0 (Fn double_fn) [returnOriginal] world5))) = Num 5"
    by (simp add: world5_eq get_def Let_def determineFinalValue_eq_spec)
next
  have p: "prepareTransformationArgs (Num 5) [returnBoth] = (Null, Arr [Num 5, returnBoth])"
    by (simp add: prepare_eq_spec returnBoth_def)
  have e: "executeTransformation example_env (Fn double_fn) Null (Arr [Num 5, returnBoth])
             (world5\<lparr>currentValue := Num 5\<rparr>)
           = (Return (Num 10),
              world5\<lparr>currentValue := Num 5, user := 1,
                     trace := [Invoked double_fn Null [Num 5, returnBoth]]\<rparr>)"
    by (simp add: executeTransformation_def double_fn_def world5_eq)
  from pipe_sync_return [of world5 0 "[returnBoth]" Null "Arr [Num 5, returnBoth]"
      example_env "Fn double_fn" "Num 10"] p e
  show "fst (get 1 (snd (pipe example_env 0 (Fn double_fn) [returnBoth] world5)))
          = Arr [Num 10, Num 5]"
    by (simp add: world5_eq get_def Let_def determineFinalValue_eq_spec returnBoth_def returnOriginal_def)
qed

theorem stage_result_shaping_witness:
  "fst (get 1 (snd (pipe example_env 0 (Fn double_fn) [Num 1, returnBoth] world5)))
     = Arr [Num 10, Num 5] \<and>
   fst (get 1 (snd (pipe example_env 0 (Fn double_fn) [returnOriginal] world_deferred5)))
     = Promise (Fulfilled (Num 5))"
proof -
  have p1: "prepareTransformationArgs (val (heap world5 ! 0)) [Num 1, returnBoth]
              = (Null, Arr [Num 5, Num 1, returnBoth])"
    by (simp add: prepare_eq_spec world5_eq)
  have e1: "executeTransformation example_env (Fn double_fn) Null (Arr [Num 5, Num 1, returnBoth])
              (world5\<lparr>currentValue := val (heap world5 ! 0)\<rparr>)
            = (Return (Num 10),
               world5\<lparr>currentValue := Num 5, user := 1,
                      trace := [Invoked double_fn Null [Num 5, Num 1, returnBoth]]\<rparr>)"
    by (simp add: executeTransformation_def double_fn_def world5_eq)
  have a1: "0 < length (heap world5)" "\<not> isAsync (heap world5 ! 0)"
    by (simp_all add: world5_eq)
  have p2: "prepareTransformationArgs (Num 5) [returnOriginal] = (Null, Arr [Num 5, returnOriginal])"
    by (simp add: prepare_eq_spec returnOriginal_def)
  have e2: "executeTransformation example_env (Fn double_fn) Null (Arr [Num 5, returnOriginal])
              (world_deferred5\<lparr>currentValue := val (heap world_deferred5 ! 0)\<rparr>)
            = (Return (Num 10),
               world_deferred5\<lparr>currentValue := Promise (Fulfilled (Num 5)), user := 1,
                      trace := [Invoked double_fn Null [Num 5, returnOriginal]]\<rparr>)"
    by (simp add: executeTransformation_def double_fn_def world_deferred5_eq)
  have a2: "0 < length (heap world_deferred5)" "isAsync (heap world_deferred5 ! 0)"
    "settle_of (val (heap world_deferred5 ! 0)) = Fulfilled (Num 5)"
    "settle_of (Num 10) = Fulfilled (Num 10)"
    by (simp_all add: world_deferred5_eq)
  have l: "length (heap world5) = 1" "length (heap world_deferred5) = 1"
    by (simp_all add: world5_eq world_deferred5_eq)
  have s: "spec_shape (Num 10) (val (heap world5 ! 0)) [Num 1, returnBoth] = Arr [Num 10, Num 5]"
    "settle_of (spec_shape (Num 10) (Num 5) [returnOriginal]) = Fulfilled (Num 5)"
    by (simp_all add: world5_eq returnBoth_def returnOriginal_def)
  from stage_result_shaping [where a = 0 and w = world5 and args = "[Num 1, returnBoth]"
      and ctx = Null and ca = "Arr [Num 5, Num 1, returnBoth]" and env = example_env
      and t = "Fn double_fn" and r = "Num 10"] p1 e1 a1 l s
  have "fst (get 1 (snd (pipe example_env 0 (Fn double_fn) [Num 1, returnBoth] world5)))
          = Arr [Num 10, Num 5]"
    by simp
  moreover
  from stage_result_shaping [where a = 0 and w = world_deferred5 and args = "[returnOriginal]"
      and ctx = Null and ca = "Arr [Num 5, returnOriginal]" and env = example_env
      and t = "Fn double_fn" and r = "Num 10" and v = "Num 5" and p = "Num 10"] p2 e2 a2 l s
  have "fst (get 1 (snd (pipe example_env 0 (Fn double_fn) [returnOriginal] world_deferred5)))
          = Promise (Fulfilled (Num 5))"
    by simp
  ultimately show ?thesis by simp
qed

section \<open>A trailing sentinel is also an argument\<close>

lemma call_fn_fst_user:
  "user w' = user w \<Longrightarrow> fst (call_fn env f ctx xs w') = fst (call_fn env f ctx xs w)"
  by (cases f) (simp_all split: prod.splits)

text \<open>
  C9. In the default call convention a trailing sentinel is not kept out of
  band. \<^verbatim>\<open>pipe(f, SENTINEL)\<close> on a container that wraps \<open>v\<close> (in deferred mode:
  whose payload is fulfilled with \<open>v\<close>) invokes the callable \<open>f\<close> with the two
  arguments \<open>v\<close> and the sentinel, and when \<open>f\<close> returns, the same sentinel
  shapes the stage's result.
\<close>

theorem sentinel_is_an_argument:
  assumes "a < length (heap w)"
    and "s = returnOriginal \<or> s = returnBoth"
    and "if isAsync (heap w ! a) then settle_of (val (heap w ! a)) = Fulfilled v
         else val (heap w ! a) = v"
  shows "(\<exists>evs. trace (snd (pipe env a (Fn f) [s] w)) = trace w @ Invoked f Null [v, s] # evs) \<and>
         (\<not> isAsync (heap w ! a) \<longrightarrow> fst (call_fn env f Null [v, s] w) = Return r \<longrightarrow>
            fst (get (length (heap w)) (snd (pipe env a (Fn f) [s] w)))
              = (if s = returnOriginal then v else Arr [r, v])) \<and>
         (isAsync (heap w ! a) \<longrightarrow> fst (call_fn env f Null [v, s] w) = Return p \<longrightarrow>
            settle_of p = Fulfilled r \<longrightarrow>
            fst (get (length (heap w)) (snd (pipe env a (Fn f) [s] w)))
              = Promise (settle_of (if s = returnOriginal then v else Arr [r, v])))"
proof -
  let ?c = "heap w ! a"
  let ?w0 = "w\<lparr>currentValue := val ?c\<rparr>"
  let ?w0' = "?w0\<lparr>trace := trace ?w0 @ [Invoked f Null [v, s]]\<rparr>"
  from assms(2) have sc: "spec_call_convention v [s] = (Null, Arr [v, s])"
    by (auto simp: returnOriginal_def returnBoth_def)
  then have p: "prepareTransformationArgs v [s] = (Null, Arr [v, s])"
    by (simp add: prepare_eq_spec)
  have ex: "executeTransformation env (Fn f) Null (Arr [v, s]) ?w0 = call_fn env f Null [v, s] ?w0'"
    by (simp add: executeTransformation_def)
  have fst_eq: "fst (call_fn env f Null [v, s] ?w0') = fst (call_fn env f Null [v, s] w)"
    by (rule call_fn_fst_user) simp
  have shape: "\<And>x. determineFinalValue x v [s] = (if s = returnOriginal then v else Arr [x, v])"
    using assms(2) by (auto simp: determineFinalValue_eq_spec returnOriginal_def returnBoth_def)
  from pipe_invokes_callable [OF assms(3) p, of env f]
  have inv: "\<exists>evs. trace (snd (pipe env a (Fn f) [s] w)) = trace w @ Invoked f Null [v, s] # evs"
    by simp
  have imm: "fst (get (length (heap w)) (snd (pipe env a (Fn f) [s] w)))
               = (if s = returnOriginal then v else Arr [r, v])"
    if na: "\<not> isAsync ?c" and ret: "fst (call_fn env f Null [v, s] w) = Return r"
  proof -
    from na assms(3) have v: "val ?c = v" by simp
    from ret fst_eq ex obtain w1 where
      "executeTransformation env (Fn f) Null (Arr [v, s]) ?w0 = (Return r, w1)"
      by (metis prod.collapse)
    from pipe_sync_return [OF na, of "[s]" Null "Arr [v, s]" env "Fn f" r w1] p v this
    show ?thesis by (simp add: get_new shape)
  qed
  have def: "fst (get (length (heap w)) (snd (pipe env a (Fn f) [s] w)))
               = Promise (settle_of (if s = returnOriginal then v else Arr [r, v]))"
    if ia: "isAsync ?c" and ret: "fst (call_fn env f Null [v, s] w) = Return p"
      and sp: "settle_of p = Fulfilled r"
  proof -
    from ia assms(3) have v: "settle_of (val ?c) = Fulfilled v" by simp
    from ret fst_eq ex obtain w1 where
      "executeTransformation env (Fn f) Null (Arr [v, s]) ?w0 = (Return p, w1)"
      by (metis prod.collapse)
    from pipe_async_return [OF ia v p this] sp
    show ?thesis by (simp add: get_new shape promise_resolve_def)
  qed
  from inv imm def show ?thesis by blast
qed

theorem sentinel_is_an_argument_witness:
  "(\<exists>evs. trace (snd (pipe example_env 0 (Fn double_fn) [returnBoth] world5))
      = trace world5 @ Invoked double_fn Null [Num 5, returnBoth] # evs) \<and>
   fst (get 1 (snd (pipe example_env 0 (Fn double_fn) [returnBoth] world5)))
      = Arr [Num 10, Num 5]"
proof -
  have a: "0 < length (heap world5)" "returnBoth = returnOriginal \<or> returnBoth = returnBoth"
    "if isAsync (heap world5 ! 0) then settle_of (val (heap world5 ! 0)) = Fulfilled (Num 5)
     else val (heap world5 ! 0) = Num 5"
    by (simp_all add: world5_eq)
  have r: "fst (call_fn example_env double_fn Null [Num 5, returnBoth] world5) = Return (Num 10)"
    by (simp add: double_fn_def world5_eq)
  have n: "\<not> isAsync (heap world5 ! 0)" "length (heap world5) = 1"
    "returnBoth \<noteq> returnOriginal"
    by (simp_all add: world5_eq returnBoth_def returnOriginal_def)
  from sentinel_is_an_argument [OF a, of example_env double_fn "Num 10"] r n
  show ?thesis by simp
qed

section \<open>Resolution\<close>

text \<open>
  C8. The accessor has no effect and reads only the payload and the mode of
  its container, which no operation changes: calling it twice gives equal
  values (in deferred mode, promises that settle equally), also with other
  operations in between. No resolution invokes a transformer, and a stage
  invokes its transformer at most once: in any program the number of
  transformer invocations is at most the number of stages, however many
  resolutions it contains.
\<close>

theorem resolution_is_idempotent:
  "snd (get a w) = w \<and>
   fst (get a (snd (get a w))) = fst (get a w) \<and>
   (a < length (heap w) \<longrightarrow> fst (get a (run env ops w)) = fst (get a w)) \<and>
   invocations (trace (snd (pipe env a t args w))) \<le> Suc (invocations (trace w)) \<and>
   invocations (trace (run env ops w)) \<le> invocations (trace w) + length (filter is_stage ops)"
proof (intro conjI impI)
  show "snd (get a w) = w" by (simp add: get_def Let_def)
  then show "fst (get a (snd (get a w))) = fst (get a w)" by simp
next
  assume "a < length (heap w)"
  from run_frame [OF this, of env ops]
  show "fst (get a (run env ops w)) = fst (get a w)" by (simp add: get_def Let_def)
next
  show "invocations (trace (snd (pipe env a t args w))) \<le> Suc (invocations (trace w))"
    by (rule pipe_invocations)
next
  show "invocations (trace (run env ops w)) \<le> invocations (trace w) + length (filter is_stage ops)"
    by (rule run_invocations)
qed

theorem resolution_is_idempotent_witness:
  "fst (get 0 (run example_env
          [Get 0, Pipe 0 (Fn double_fn) [], Get 1, Get 1, Catch 0 quiet_handler, Get 0] world5))
     = Num 5 \<and>
   invocations (trace (run example_env
          [Get 0, Pipe 0 (Fn double_fn) [], Get 1, Get 1, Catch 0 quiet_handler, Get 0] world5))
     \<le> 1"
proof -
  have "0 < length (heap world5)" "fst (get 0 world5) = Num 5"
    "invocations (trace world5) = 0"
    by (simp_all add: world5_eq get_def Let_def invocations_def)
  with resolution_is_idempotent [of 0 world5 example_env
      "[Get 0, Pipe 0 (Fn double_fn) [], Get 1, Get 1, Catch 0 quiet_handler, Get 0]"
      "Fn double_fn" "[]"]
  show ?thesis by (simp del: run.simps)
qed

text \<open>A \<^verbatim>\<open>pipe\<close> call goes one of four ways.\<close>

lemma pipe_cases [case_names deferred returned handled rethrown]:
  obtains
    (deferred) s w1 where "isAsync (heap w ! a)"
      and "asyncTransform env (heap w ! a) t args (w\<lparr>currentValue := val (heap w ! a)\<rparr>) = (s, w1)"
      and "pipe env a t args w =
             (Inr (length (heap w)),
              w1\<lparr>heap := heap w @ [\<lparr>val = Promise s, errorHandler = NoopHandler,
                                     isAsync = True\<rparr>]\<rparr>)"
  | (returned) ctx ca r w1 where "\<not> isAsync (heap w ! a)"
      and "prepareTransformationArgs (val (heap w ! a)) args = (ctx, ca)"
      and "executeTransformation env t ctx ca (w\<lparr>currentValue := val (heap w ! a)\<rparr>)
             = (Return r, w1)"
      and "pipe env a t args w =
             (Inr (length (heap w)),
              w1\<lparr>heap := heap w @ [\<lparr>val = determineFinalValue r (val (heap w ! a)) args,
                                     errorHandler = NoopHandler, isAsync = False\<rparr>]\<rparr>)"
  | (handled) ctx ca e w1 r w2 where "\<not> isAsync (heap w ! a)"
      and "prepareTransformationArgs (val (heap w ! a)) args = (ctx, ca)"
      and "executeTransformation env t ctx ca (w\<lparr>currentValue := val (heap w ! a)\<rparr>)
             = (Throw e, w1)"
      and "call_fn env (errorHandler (heap w ! a)) (FlowRef a) [e]
             (w1\<lparr>trace := trace w1 @ [Handled (errorHandler (heap w ! a)) e]\<rparr>) = (Return r, w2)"
      and "pipe env a t args w =
             (Inr (length (heap w)),
              w2\<lparr>heap := heap w @ [\<lparr>val = Undefined, errorHandler = NoopHandler,
                                     isAsync = False\<rparr>]\<rparr>)"
  | (rethrown) ctx ca e w1 e' w2 where "\<not> isAsync (heap w ! a)"
      and "prepareTransformationArgs (val (heap w ! a)) args = (ctx, ca)"
      and "executeTransformation env t ctx ca (w\<lparr>currentValue := val (heap w ! a)\<rparr>)
             = (Throw e, w1)"
      and "call_fn env (errorHandler (heap w ! a)) (FlowRef a) [e]
             (w1\<lparr>trace := trace w1 @ [Handled (errorHandler (heap w ! a)) e]\<rparr>) = (Throw e', w2)"
      and "pipe env a t args w = (Inl e', w2)"
proof (cases "isAsync (heap w ! a)")
  case True
  obtain s w1 where
    at: "asyncTransform env (heap w ! a) t args (w\<lparr>currentValue := val (heap w ! a)\<rparr>) = (s, w1)"
    by (cases "asyncTransform env (heap w ! a) t args (w\<lparr>currentValue := val (heap w ! a)\<rparr>)")
  from deferred [OF True at pipe_async [OF True at]] show ?thesis .
next
  case False
  obtain ctx ca where p: "prepareTransformationArgs (val (heap w ! a)) args = (ctx, ca)"
    by (cases "prepareTransformationArgs (val (heap w ! a)) args")
  obtain c w1 where
    e: "executeTransformation env t ctx ca (w\<lparr>currentValue := val (heap w ! a)\<rparr>) = (c, w1)"
    by (cases "executeTransformation env t ctx ca (w\<lparr>currentValue := val (heap w ! a)\<rparr>)")
  show ?thesis
  proof (cases c)
    case (Return r)
    with e have e': "executeTransformation env t ctx ca (w\<lparr>currentValue := val (heap w ! a)\<rparr>)
        = (Return r, w1)" by simp
    from returned [OF False p e' pipe_sync_return [OF False p e']] show ?thesis .
  next
    case (Throw x)
    with e have e': "executeTransformation env t ctx ca (w\<lparr>currentValue := val (heap w ! a)\<rparr>)
        = (Throw x, w1)" by simp
    obtain c2 w2 where
      h: "call_fn env (errorHandler (heap w ! a)) (FlowRef a) [x]
            (w1\<lparr>trace := trace w1 @ [Handled (errorHandler (heap w ! a)) x]\<rparr>) = (c2, w2)"
      by (cases "call_fn env (errorHandler (heap w ! a)) (FlowRef a) [x]
            (w1\<lparr>trace := trace w1 @ [Handled (errorHandler (heap w ! a)) x]\<rparr>)")
    show ?thesis
    proof (cases c2)
      case (Return r)
      with h pipe_sync_throw [OF False p e' h] handled [OF False p e', of r w2]
      show ?thesis by simp
    next
      case (Throw y)
      with h pipe_sync_throw [OF False p e' h] rethrown [OF False p e', of y w2]
      show ?thesis by simp
    qed
  qed
qed

lemma pipe_new_container:
  assumes "fst (pipe env a t args w) = Inr b"
  shows "b = length (heap w) \<and>
         (\<exists>c. heap (snd (pipe env a t args w)) = heap w @ [c] \<and>
              errorHandler c = NoopHandler \<and> isAsync c = isAsync (heap w ! a))"
proof (cases rule: pipe_cases [of w a env t args])
  case (deferred s w1)
  from deferred(2) have "heap w1 = heap w"
    by (metis asyncTransform_heap snd_conv select_convs(1) surjective update_convs(2))
  with deferred assms show ?thesis by simp
next
  case (returned ctx ca r w1)
  with assms show ?thesis by simp
next
  case (handled ctx ca e w1 r w2)
  with assms show ?thesis by simp
next
  case (rethrown ctx ca e w1 e' w2)
  with assms show ?thesis by simp
qed

text \<open>
  The engine reads the heap only at the container it is called on, and of that
  container the handler only after a synchronous failure.
\<close>

lemma heap_update_last:
  "(w\<lparr>heap := H\<rparr>)\<lparr>trace := X\<rparr> = (w\<lparr>trace := X\<rparr>)\<lparr>heap := H\<rparr>"
  "(w\<lparr>heap := H\<rparr>)\<lparr>currentValue := v\<rparr> = (w\<lparr>currentValue := v\<rparr>)\<lparr>heap := H\<rparr>"
  "(w\<lparr>heap := H\<rparr>)\<lparr>user := u\<rparr> = (w\<lparr>user := u\<rparr>)\<lparr>heap := H\<rparr>"
  by simp_all

lemma call_fn_heap_indep:
  "call_fn env f ctx xs (w\<lparr>heap := H\<rparr>) =
     (fst (call_fn env f ctx xs w), (snd (call_fn env f ctx xs w))\<lparr>heap := H\<rparr>)"
  by (cases f) (simp_all add: heap_update_last split: prod.splits)

lemma executeTransformation_heap_indep:
  "executeTransformation env t ctx ca (w\<lparr>heap := H\<rparr>) =
     (fst (executeTransformation env t ctx ca w),
      (snd (executeTransformation env t ctx ca w))\<lparr>heap := H\<rparr>)"
  by (simp add: executeTransformation_def call_fn_heap_indep heap_update_last
      split: jsval.splits sum.splits)

lemma asyncTransform_heap_indep:
  assumes "val c' = val c"
  shows "asyncTransform env c' t args (w\<lparr>heap := H\<rparr>) =
     (fst (asyncTransform env c t args w), (snd (asyncTransform env c t args w))\<lparr>heap := H\<rparr>)"
  unfolding asyncTransform_def executeTransformation_heap_indep assms
  by (simp split: settle.splits prod.splits completion.splits)

lemma pipe_heap_indep:
  assumes "length H = length (heap w)"
    and "val (H ! a) = val (heap w ! a)" and "isAsync (H ! a) = isAsync (heap w ! a)"
    and "errorHandler (H ! a) = errorHandler (heap w ! a) \<or> sync_failure env w a t args = None"
  shows "pipe env a t args (w\<lparr>heap := H\<rparr>) =
           (fst (pipe env a t args w),
            (snd (pipe env a t args w))
              \<lparr>heap := H @ drop (length (heap w)) (heap (snd (pipe env a t args w)))\<rparr>)"
proof (cases rule: pipe_cases [of w a env t args])
  case (deferred s w1)
  let ?w' = "w\<lparr>heap := H\<rparr>"
  from deferred(1) assms(3) have ia: "isAsync (heap ?w' ! a)" by simp
  from asyncTransform_heap_indep [where c' = "H ! a" and c = "heap w ! a" and env = env
      and t = t and args = args and w = "w\<lparr>currentValue := val (heap w ! a)\<rparr>" and H = H] assms(2) deferred(2)
  have "asyncTransform env (heap ?w' ! a) t args (?w'\<lparr>currentValue := val (heap ?w' ! a)\<rparr>)
          = (s, w1\<lparr>heap := H\<rparr>)"
    by (simp add: heap_update_last)
  from pipe_async [OF ia this] deferred(3) assms(1) show ?thesis by simp
next
  case (returned ctx ca r w1)
  let ?w' = "w\<lparr>heap := H\<rparr>"
  from returned(1) assms(3) have na: "\<not> isAsync (heap ?w' ! a)" by simp
  from returned(2) assms(2) have p: "prepareTransformationArgs (val (heap ?w' ! a)) args = (ctx, ca)"
    by simp
  from executeTransformation_heap_indep [where env = env and t = t and ctx = ctx and ca = ca
      and w = "w\<lparr>currentValue := val (heap w ! a)\<rparr>" and H = H]
    returned(3) assms(2)
  have "executeTransformation env t ctx ca (?w'\<lparr>currentValue := val (heap ?w' ! a)\<rparr>)
          = (Return r, w1\<lparr>heap := H\<rparr>)"
    by (simp add: heap_update_last)
  from pipe_sync_return [OF na p this] returned(4) assms(1,2) show ?thesis by simp
next
  case (handled ctx ca e w1 r w2)
  let ?w' = "w\<lparr>heap := H\<rparr>"
  from handled(1-3) have "sync_failure env w a t args = Some e"
    by (simp add: sync_failure_def)
  with assms(4) have hd: "errorHandler (H ! a) = errorHandler (heap w ! a)" by simp
  from handled(1) assms(3) have na: "\<not> isAsync (heap ?w' ! a)" by simp
  from handled(2) assms(2) have p: "prepareTransformationArgs (val (heap ?w' ! a)) args = (ctx, ca)"
    by simp
  from executeTransformation_heap_indep [where env = env and t = t and ctx = ctx and ca = ca
      and w = "w\<lparr>currentValue := val (heap w ! a)\<rparr>" and H = H]
    handled(3) assms(2)
  have e': "executeTransformation env t ctx ca (?w'\<lparr>currentValue := val (heap ?w' ! a)\<rparr>)
          = (Throw e, w1\<lparr>heap := H\<rparr>)"
    by (simp add: heap_update_last)
  from call_fn_heap_indep [where env = env and f = "errorHandler (heap w ! a)"
      and ctx = "FlowRef a" and xs = "[e]" and H = H
      and w = "w1\<lparr>trace := trace w1 @ [Handled (errorHandler (heap w ! a)) e]\<rparr>"] handled(4) hd
  have "call_fn env (errorHandler (heap ?w' ! a)) (FlowRef a) [e]
          ((w1\<lparr>heap := H\<rparr>)\<lparr>trace := trace (w1\<lparr>heap := H\<rparr>) @ [Handled (errorHandler (heap ?w' ! a)) e]\<rparr>)
        = (Return r, w2\<lparr>heap := H\<rparr>)"
    by (simp add: heap_update_last)
  from pipe_sync_throw [OF na p e' this] handled(5) assms(1) show ?thesis by simp
next
  case (rethrown ctx ca e w1 e' w2)
  let ?w' = "w\<lparr>heap := H\<rparr>"
  from rethrown(1-3) have "sync_failure env w a t args = Some e"
    by (simp add: sync_failure_def)
  with assms(4) have hd: "errorHandler (H ! a) = errorHandler (heap w ! a)" by simp
  from rethrown(1) assms(3) have na: "\<not> isAsync (heap ?w' ! a)" by simp
  from rethrown(2) assms(2) have p: "prepareTransformationArgs (val (heap ?w' ! a)) args = (ctx, ca)"
    by simp
  from executeTransformation_heap_indep [where env = env and t = t and ctx = ctx and ca = ca
      and w = "w\<lparr>currentValue := val (heap w ! a)\<rparr>" and H = H]
    rethrown(3) assms(2)
  have ex: "executeTransformation env t ctx ca (?w'\<lparr>currentValue := val (heap ?w' ! a)\<rparr>)
          = (Throw e, w1\<lparr>heap := H\<rparr>)"
    by (simp add: heap_update_last)
  from rethrown(3) have h1: "heap w1 = heap w"
    by (metis executeTransformation_heap snd_conv select_convs(1) surjective update_convs(2))
  from rethrown(4) have h2: "heap w2 = heap w1"
    by (metis call_fn_heap snd_conv select_convs(1) surjective update_convs(4))
  from call_fn_heap_indep [where env = env and f = "errorHandler (heap w ! a)"
      and ctx = "FlowRef a" and xs = "[e]" and H = H
      and w = "w1\<lparr>trace := trace w1 @ [Handled (errorHandler (heap w ! a)) e]\<rparr>"] rethrown(4) hd
  have "call_fn env (errorHandler (heap ?w' ! a)) (FlowRef a) [e]
          ((w1\<lparr>heap := H\<rparr>)\<lparr>trace := trace (w1\<lparr>heap := H\<rparr>) @ [Handled (errorHandler (heap ?w' ! a)) e]\<rparr>)
        = (Throw e', w2\<lparr>heap := H\<rparr>)"
    by (simp add: heap_update_last)
  from pipe_sync_throw [OF na p ex this] rethrown(5) h1 h2 show ?thesis by simp
qed

section \<open>Registering an error handler\<close>

text \<open>
  C6. \<^verbatim>\<open>catch(handler)\<close> returns the container it was called on, and changes
  nothing but the handler field of that container: its payload and its mode,
  every other container and the rest of the world stay as they are. The
  handler is not inherited: every container that a stage returns starts with
  the no-op handler. And it matters only to a synchronous failure of a stage
  on this very container: a stage on another container, or a stage on this
  container that raises no synchronous failure, does the same with and without
  the registration.
\<close>

theorem catch_registers_in_place:
  assumes "a < length (heap w)"
  shows "catch a h w = (a, w\<lparr>heap := (heap w)[a := (heap w ! a)\<lparr>errorHandler := h\<rparr>]\<rparr>) \<and>
         heap (snd (catch a h w)) ! a
           = \<lparr>val = val (heap w ! a), errorHandler = h, isAsync = isAsync (heap w ! a)\<rparr> \<and>
         (\<forall>b. b \<noteq> a \<longrightarrow> heap (snd (catch a h w)) ! b = heap w ! b) \<and>
         (\<forall>c t args b. fst (pipe env c t args (snd (catch a h w))) = Inr b \<longrightarrow>
            b = length (heap w) \<and> b \<noteq> a \<and>
            errorHandler (heap (snd (pipe env c t args (snd (catch a h w)))) ! b) = NoopHandler) \<and>
         (\<forall>c t args. c < length (heap w) \<longrightarrow>
            (c \<noteq> a \<or> sync_failure env w c t args = None) \<longrightarrow>
            pipe env c t args (snd (catch a h w))
              = (fst (pipe env c t args w), snd (catch a h (snd (pipe env c t args w)))))"
proof -
  let ?H = "(heap w)[a := (heap w ! a)\<lparr>errorHandler := h\<rparr>]"
  have c: "catch a h w = (a, w\<lparr>heap := ?H\<rparr>)"
    by (simp add: catch_def)
  from assms have cell: "heap (snd (catch a h w)) ! a
      = \<lparr>val = val (heap w ! a), errorHandler = h, isAsync = isAsync (heap w ! a)\<rparr>"
    by (simp add: c)
  have others: "\<forall>b. b \<noteq> a \<longrightarrow> heap (snd (catch a h w)) ! b = heap w ! b"
    by (simp add: c)
  have fresh: "b = length (heap w) \<and> b \<noteq> a \<and>
      errorHandler (heap (snd (pipe env c t args (snd (catch a h w)))) ! b) = NoopHandler"
    if "fst (pipe env c t args (snd (catch a h w))) = Inr b" for c t args b
  proof -
    from pipe_new_container [OF that] obtain x where
      "b = length (heap (snd (catch a h w)))"
      "heap (snd (pipe env c t args (snd (catch a h w)))) = heap (snd (catch a h w)) @ [x]"
      "errorHandler x = NoopHandler"
      by blast
    with assms show ?thesis by (simp add: c nth_append)
  qed
  have commute: "pipe env c t args (snd (catch a h w))
      = (fst (pipe env c t args w), snd (catch a h (snd (pipe env c t args w))))"
    if lt: "c < length (heap w)" and ok: "c \<noteq> a \<or> sync_failure env w c t args = None"
    for c t args
  proof -
    from pipe_heap [of env c t args w] obtain cs where
      hp: "heap (snd (pipe env c t args w)) = heap w @ cs" by blast
    have same: "val (?H ! c) = val (heap w ! c)" "isAsync (?H ! c) = isAsync (heap w ! c)"
      using assms by (cases "c = a"; simp)+
    have hd: "errorHandler (?H ! c) = errorHandler (heap w ! c)
        \<or> sync_failure env w c t args = None"
    proof (cases "c = a")
      case True
      with ok show ?thesis by simp
    next
      case False
      then show ?thesis by simp
    qed
    from pipe_heap_indep [of ?H w c env t args] same hd
    have "pipe env c t args (w\<lparr>heap := ?H\<rparr>)
        = (fst (pipe env c t args w), (snd (pipe env c t args w))\<lparr>heap := ?H @ cs\<rparr>)"
      by (simp add: hp)
    moreover from assms hp have
      "snd (catch a h (snd (pipe env c t args w)))
         = (snd (pipe env c t args w))\<lparr>heap := ?H @ cs\<rparr>"
      by (simp add: catch_def list_update_append nth_append)
    ultimately show ?thesis by (simp add: c)
  qed
  from c cell others fresh commute show ?thesis by blast
qed

theorem catch_registers_in_place_witness:
  "catch 0 quiet_handler world5
     = (0, world5\<lparr>heap := [\<lparr>val = Num 5, errorHandler = quiet_handler, isAsync = False\<rparr>]\<rparr>) \<and>
   errorHandler (heap (snd (pipe example_env 0 (Fn boom_fn) [] (snd (catch 0 quiet_handler world5)))) ! 1)
     = NoopHandler \<and>
   pipe example_env 0 (Fn double_fn) [] (snd (catch 0 quiet_handler world5))
     = (fst (pipe example_env 0 (Fn double_fn) [] world5),
        snd (catch 0 quiet_handler (snd (pipe example_env 0 (Fn double_fn) [] world5))))"
proof -
  have a: "0 < length (heap world5)" by (simp add: world5_eq)
  have nf: "sync_failure example_env world5 0 (Fn double_fn) [] = None"
    by (simp add: sync_failure_def world5_eq prepare_eq_spec executeTransformation_def
        double_fn_def)
  have p: "fst (pipe example_env 0 (Fn boom_fn) [] (snd (catch 0 quiet_handler world5))) = Inr 1"
    by (simp add: pipe_def Let_def handleSyncTransformation_def prepare_eq_spec
        executeTransformation_def boom_fn_def quiet_handler_def catch_def world5_eq new_Flow_eq)
  have h: "(heap world5)[0 := (heap world5 ! 0)\<lparr>errorHandler := quiet_handler\<rparr>]
      = [\<lparr>val = Num 5, errorHandler = quiet_handler, isAsync = False\<rparr>]"
    by (simp add: world5_eq)
  note T = catch_registers_in_place [OF a, of quiet_handler example_env]
  from T [THEN conjunct1] h have A: "catch 0 quiet_handler world5
      = (0, world5\<lparr>heap := [\<lparr>val = Num 5, errorHandler = quiet_handler, isAsync = False\<rparr>]\<rparr>)"
    by simp
  from T [THEN conjunct2, THEN conjunct2, THEN conjunct2, THEN conjunct1, rule_format, OF p]
  have B: "errorHandler (heap (snd (pipe example_env 0 (Fn boom_fn) []
      (snd (catch 0 quiet_handler world5)))) ! 1) = NoopHandler"
    by blast
  from T [THEN conjunct2, THEN conjunct2, THEN conjunct2, THEN conjunct2, rule_format,
      of 0 "Fn double_fn" "[]"] a nf
  have C: "pipe example_env 0 (Fn double_fn) [] (snd (catch 0 quiet_handler world5))
     = (fst (pipe example_env 0 (Fn double_fn) [] world5),
        snd (catch 0 quiet_handler (snd (pipe example_env 0 (Fn double_fn) [] world5))))"
    by blast
  from A B C show ?thesis by blast
qed

text \<open>Only the catch block of \<^verbatim>\<open>pipe\<close> calls a handler.\<close>

lemma handler_calls_append [simp]:
  "handler_calls (xs @ ys) = handler_calls xs @ handler_calls ys"
  by (simp add: handler_calls_def)

lemma retry_loop_handler_calls [simp]: "handler_calls (snd (retry_loop n i v)) = []"
proof -
  have "\<forall>ev \<in> set (snd (retry_loop n i v)). \<not> is_Handled ev"
    using retry_loop_events [of _ n i v] by fastforce
  then show ?thesis by (simp add: handler_calls_def filter_empty_conv)
qed

lemma call_fn_handler_calls [simp]:
  "handler_calls (trace (snd (call_fn env f ctx xs w))) = handler_calls (trace w)"
proof (cases f)
  case (RetryFn n)
  then show ?thesis
    by (simp split: prod.splits) (metis retry_loop_handler_calls snd_conv)
qed (simp_all split: prod.splits)

lemma executeTransformation_handler_calls [simp]:
  "handler_calls (trace (snd (executeTransformation env t ctx ca w))) = handler_calls (trace w)"
  by (simp add: executeTransformation_def handler_calls_def [of "[Invoked _ _ _]"]
      split: jsval.splits sum.splits)

lemma asyncTransform_handler_calls [simp]:
  "handler_calls (trace (snd (asyncTransform env c t args w))) = handler_calls (trace w)"
proof -
  have "\<And>ctx ca r w'. executeTransformation env t ctx ca w = (r, w') \<Longrightarrow>
          handler_calls (trace w') = handler_calls (trace w)"
    by (metis executeTransformation_handler_calls snd_conv)
  then show ?thesis
    unfolding asyncTransform_def
    by (auto split: settle.splits prod.splits completion.splits)
qed

lemma world5_quiet_eq:
  "world5_quiet = \<lparr>heap = [\<lparr>val = Num 5, errorHandler = quiet_handler, isAsync = False\<rparr>],
                    currentValue = Undefined, user = 0, trace = []\<rparr>"
  by (simp add: world5_quiet_def catch_def world5_eq)

lemma world5_failing_eq:
  "world5_failing = \<lparr>heap = [\<lparr>val = Num 5, errorHandler = failing_handler, isAsync = False\<rparr>],
                      currentValue = Undefined, user = 0, trace = []\<rparr>"
  by (simp add: world5_failing_def catch_def world5_eq)

section \<open>Failure isolation\<close>

text \<open>
  C1, as the claim states it, fails when the handler itself throws: the catch
  block of \<^verbatim>\<open>pipe\<close> calls the handler unguarded, so the handler's error leaves
  \<^verbatim>\<open>pipe\<close> and no container is returned. Here \<^verbatim>\<open>flow(5)\<close> has a handler that
  throws, and the transformer throws \<open>Err ''boom''\<close>.
\<close>

theorem pipe_aborts_when_handler_throws:
  "fst (pipe example_env 0 (Fn boom_fn) [] world5_failing) = Inl (Err ''handler'') \<and>
   length (heap (snd (pipe example_env 0 (Fn boom_fn) [] world5_failing))) = 1 \<and>
   trace (snd (pipe example_env 0 (Fn boom_fn) [] world5_failing))
     = [Invoked boom_fn Null [Num 5], Handled failing_handler (Err ''boom'')]"
  by (simp add: pipe_def Let_def handleSyncTransformation_def prepare_eq_spec
      executeTransformation_def boom_fn_def failing_handler_def world5_failing_eq)

text \<open>
  C1, amended. A stage on an immediate container whose transformer throws
  synchronously calls the handler of that container exactly once, with the
  raised error; when the handler returns, \<^verbatim>\<open>pipe\<close> returns a new immediate
  container whose payload is \<^verbatim>\<open>undefined\<close>. A stage on a deferred container
  always returns a new deferred container and calls no handler; a failure of
  its pending computation (a rejected source, a transformer that throws, or a
  transformer whose promise rejects) is the rejection of the new payload,
  which the accessor hands out.
\<close>

theorem pipe_isolates_sync_failures:
  assumes "a < length (heap w)"
  shows "(\<not> isAsync (heap w ! a) \<longrightarrow>
          prepareTransformationArgs (val (heap w ! a)) args = (ctx, ca) \<longrightarrow>
          executeTransformation env t ctx ca (w\<lparr>currentValue := val (heap w ! a)\<rparr>) = (Throw e, w1) \<longrightarrow>
            handler_calls (trace (snd (pipe env a t args w)))
              = handler_calls (trace w) @ [Handled (errorHandler (heap w ! a)) e] \<and>
            (\<forall>r w2. call_fn env (errorHandler (heap w ! a)) (FlowRef a) [e]
                       (w1\<lparr>trace := trace w1 @ [Handled (errorHandler (heap w ! a)) e]\<rparr>)
                     = (Return r, w2) \<longrightarrow>
               pipe env a t args w =
                 (Inr (length (heap w)),
                  w2\<lparr>heap := heap w @ [\<lparr>val = Undefined, errorHandler = NoopHandler,
                                         isAsync = False\<rparr>]\<rparr>))) \<and>
         (isAsync (heap w ! a) \<longrightarrow>
            fst (pipe env a t args w) = Inr (length (heap w)) \<and>
            isAsync (heap (snd (pipe env a t args w)) ! length (heap w)) \<and>
            handler_calls (trace (snd (pipe env a t args w))) = handler_calls (trace w) \<and>
            (\<forall>x. settle_of (val (heap w ! a)) = Rejected x \<longrightarrow>
               fst (get (length (heap w)) (snd (pipe env a t args w))) = Promise (Rejected x)) \<and>
            (\<forall>v ctx' ca' x. settle_of (val (heap w ! a)) = Fulfilled v \<longrightarrow>
               prepareTransformationArgs v args = (ctx', ca') \<longrightarrow>
               fst (executeTransformation env t ctx' ca' (w\<lparr>currentValue := val (heap w ! a)\<rparr>))
                 = Throw x \<longrightarrow>
               fst (get (length (heap w)) (snd (pipe env a t args w))) = Promise (Rejected x)) \<and>
            (\<forall>v ctx' ca' p x. settle_of (val (heap w ! a)) = Fulfilled v \<longrightarrow>
               prepareTransformationArgs v args = (ctx', ca') \<longrightarrow>
               fst (executeTransformation env t ctx' ca' (w\<lparr>currentValue := val (heap w ! a)\<rparr>))
                 = Return p \<longrightarrow>
               settle_of p = Rejected x \<longrightarrow>
               fst (get (length (heap w)) (snd (pipe env a t args w))) = Promise (Rejected x)))"
proof (intro conjI impI allI)
  let ?c = "heap w ! a"
  let ?w0 = "w\<lparr>currentValue := val ?c\<rparr>"
  let ?h = "errorHandler ?c"
  assume na: "\<not> isAsync ?c"
    and p: "prepareTransformationArgs (val ?c) args = (ctx, ca)"
    and e: "executeTransformation env t ctx ca ?w0 = (Throw e, w1)"
  from executeTransformation_handler_calls [of env t ctx ca ?w0] e
  have t1: "handler_calls (trace w1) = handler_calls (trace w)" by simp
  obtain c2 w2 where
    h: "call_fn env ?h (FlowRef a) [e] (w1\<lparr>trace := trace w1 @ [Handled ?h e]\<rparr>) = (c2, w2)"
    by (cases "call_fn env ?h (FlowRef a) [e] (w1\<lparr>trace := trace w1 @ [Handled ?h e]\<rparr>)")
  from call_fn_handler_calls [of env ?h "FlowRef a" "[e]" "w1\<lparr>trace := trace w1 @ [Handled ?h e]\<rparr>"] h t1
  have t2: "handler_calls (trace w2) = handler_calls (trace w) @ [Handled ?h e]"
    by (simp add: handler_calls_def [of "[Handled _ _]"])
  from pipe_sync_throw [OF na p e h] t2
  show "handler_calls (trace (snd (pipe env a t args w))) = handler_calls (trace w) @ [Handled ?h e]"
    by (cases c2) simp_all
  fix r w2'
  assume "call_fn env ?h (FlowRef a) [e] (w1\<lparr>trace := trace w1 @ [Handled ?h e]\<rparr>) = (Return r, w2')"
  from pipe_sync_throw [OF na p e this]
  show "pipe env a t args w =
          (Inr (length (heap w)),
           w2'\<lparr>heap := heap w @ [\<lparr>val = Undefined, errorHandler = NoopHandler, isAsync = False\<rparr>]\<rparr>)"
    by simp
next
  let ?c = "heap w ! a"
  let ?w0 = "w\<lparr>currentValue := val ?c\<rparr>"
  assume ia: "isAsync ?c"
  obtain s w1 where at: "asyncTransform env ?c t args ?w0 = (s, w1)"
    by (cases "asyncTransform env ?c t args ?w0")
  note pa = pipe_async [OF ia at]
  from pa show "fst (pipe env a t args w) = Inr (length (heap w))" by simp
  from pa show "isAsync (heap (snd (pipe env a t args w)) ! length (heap w))" by simp
  from asyncTransform_handler_calls [of env ?c t args ?w0] at pa
  show "handler_calls (trace (snd (pipe env a t args w))) = handler_calls (trace w)" by simp
  {
    fix x
    assume "settle_of (val ?c) = Rejected x"
    from pipe_async_unsettled [OF ia this, of env t args]
    show "fst (get (length (heap w)) (snd (pipe env a t args w))) = Promise (Rejected x)"
      by (simp add: get_new promise_resolve_def)
  }
  {
    fix v ctx' ca' x
    assume s: "settle_of (val ?c) = Fulfilled v"
      and p: "prepareTransformationArgs v args = (ctx', ca')"
      and "fst (executeTransformation env t ctx' ca' ?w0) = Throw x"
    then obtain w1' where "executeTransformation env t ctx' ca' ?w0 = (Throw x, w1')"
      by (metis prod.collapse)
    from pipe_async_throw [OF ia s p this]
    show "fst (get (length (heap w)) (snd (pipe env a t args w))) = Promise (Rejected x)"
      by (simp add: get_new promise_resolve_def)
  }
  {
    fix v ctx' ca' p x
    assume s: "settle_of (val ?c) = Fulfilled v"
      and pr: "prepareTransformationArgs v args = (ctx', ca')"
      and "fst (executeTransformation env t ctx' ca' ?w0) = Return p"
      and rj: "settle_of p = Rejected x"
    then obtain w1' where "executeTransformation env t ctx' ca' ?w0 = (Return p, w1')"
      by (metis prod.collapse)
    from pipe_async_return [OF ia s pr this] rj
    show "fst (get (length (heap w)) (snd (pipe env a t args w))) = Promise (Rejected x)"
      by (simp add: get_new promise_resolve_def)
  }
qed

theorem pipe_isolates_sync_failures_witness:
  "handler_calls (trace (snd (pipe example_env 0 (Fn boom_fn) [] world5_quiet)))
     = [Handled quiet_handler (Err ''boom'')] \<and>
   fst (pipe example_env 0 (Fn boom_fn) [] world5_quiet) = Inr 1 \<and>
   heap (snd (pipe example_env 0 (Fn boom_fn) [] world5_quiet)) ! 1
     = \<lparr>val = Undefined, errorHandler = NoopHandler, isAsync = False\<rparr> \<and>
   fst (get 1 (snd (pipe example_env 0 (Fn boom_fn) [] world_deferred5)))
     = Promise (Rejected (Err ''boom'')) \<and>
   handler_calls (trace (snd (pipe example_env 0 (Fn boom_fn) [] world_deferred5))) = [] \<and>
   fst (get 1 (snd (pipe example_env 0 (Fn rejecting_fn) [] world_deferred5)))
     = Promise (Rejected (Err ''late'')) \<and>
   handler_calls (trace (snd (pipe example_env 0 (Fn rejecting_fn) [] world_deferred5))) = []"
proof -
  let ?w1 = "world5_quiet\<lparr>currentValue := Num 5, user := 1,
                           trace := [Invoked boom_fn Null [Num 5]]\<rparr>"
  let ?w2 = "world5_quiet\<lparr>currentValue := Num 5, user := 2,
               trace := [Invoked boom_fn Null [Num 5], Handled quiet_handler (Err ''boom'')]\<rparr>"
  have a: "0 < length (heap world5_quiet)" "0 < length (heap world_deferred5)"
    by (simp_all add: world5_quiet_eq world_deferred5_eq)
  have na: "\<not> isAsync (heap world5_quiet ! 0)" "errorHandler (heap world5_quiet ! 0) = quiet_handler"
    "length (heap world5_quiet) = 1" "handler_calls (trace world5_quiet) = []"
    by (simp_all add: world5_quiet_eq handler_calls_def)
  have p: "prepareTransformationArgs (val (heap world5_quiet ! 0)) [] = (Null, Arr [Num 5])"
    by (simp add: prepare_eq_spec world5_quiet_eq)
  have e: "executeTransformation example_env (Fn boom_fn) Null (Arr [Num 5])
             (world5_quiet\<lparr>currentValue := val (heap world5_quiet ! 0)\<rparr>) = (Throw (Err ''boom''), ?w1)"
    by (simp add: executeTransformation_def boom_fn_def world5_quiet_eq)
  have h: "call_fn example_env (errorHandler (heap world5_quiet ! 0)) (FlowRef 0) [Err ''boom'']
             (?w1\<lparr>trace := trace ?w1 @ [Handled (errorHandler (heap world5_quiet ! 0)) (Err ''boom'')]\<rparr>)
           = (Return Undefined, ?w2)"
    by (simp add: quiet_handler_def world5_quiet_eq)
  note T = pipe_isolates_sync_failures [OF a(1), where args = "[]" and env = example_env
      and t = "Fn boom_fn"]
  from T [THEN conjunct1, rule_format, OF na(1) p e] na
  have A: "handler_calls (trace (snd (pipe example_env 0 (Fn boom_fn) [] world5_quiet)))
      = [Handled quiet_handler (Err ''boom'')]"
    by simp
  from T [THEN conjunct1, rule_format, OF na(1) p e, THEN conjunct2, rule_format, OF h] na
  have B: "pipe example_env 0 (Fn boom_fn) [] world5_quiet
      = (Inr 1, ?w2\<lparr>heap := heap world5_quiet @
           [\<lparr>val = Undefined, errorHandler = NoopHandler, isAsync = False\<rparr>]\<rparr>)"
    by simp
  have ia: "isAsync (heap world_deferred5 ! 0)" "length (heap world_deferred5) = 1"
    "settle_of (val (heap world_deferred5 ! 0)) = Fulfilled (Num 5)"
    "handler_calls (trace world_deferred5) = []"
    by (simp_all add: world_deferred5_eq handler_calls_def)
  have p': "prepareTransformationArgs (Num 5) [] = (Null, Arr [Num 5])"
    by (simp add: prepare_eq_spec)
  have e': "fst (executeTransformation example_env (Fn boom_fn) Null (Arr [Num 5])
      (world_deferred5\<lparr>currentValue := val (heap world_deferred5 ! 0)\<rparr>)) = Throw (Err ''boom'')"
    by (simp add: executeTransformation_def boom_fn_def world_deferred5_eq)
  note D = pipe_isolates_sync_failures [OF a(2), where env = example_env and t = "Fn boom_fn"
      and args = "[]", THEN conjunct2, rule_format, OF ia(1)]
  from D ia have C1: "handler_calls (trace (snd (pipe example_env 0 (Fn boom_fn) [] world_deferred5))) = []"
    by simp
  from D [THEN conjunct2, THEN conjunct2, THEN conjunct2, THEN conjunct2, THEN conjunct1,
      rule_format, OF ia(3) p' e'] ia(2)
  have C2: "fst (get 1 (snd (pipe example_env 0 (Fn boom_fn) [] world_deferred5)))
      = Promise (Rejected (Err ''boom''))"
    by simp
  have e'': "fst (executeTransformation example_env (Fn rejecting_fn) Null (Arr [Num 5])
      (world_deferred5\<lparr>currentValue := val (heap world_deferred5 ! 0)\<rparr>))
      = Return (Promise (Rejected (Err ''late'')))"
    by (simp add: executeTransformation_def rejecting_fn_def world_deferred5_eq)
  have rj: "settle_of (Promise (Rejected (Err ''late''))) = Rejected (Err ''late'')"
    by simp
  note D' = pipe_isolates_sync_failures [OF a(2), where env = example_env
      and t = "Fn rejecting_fn" and args = "[]", THEN conjunct2, rule_format, OF ia(1)]
  from D' ia have C3: "handler_calls (trace (snd (pipe example_env 0 (Fn rejecting_fn) []
      world_deferred5))) = []"
    by simp
  from D' [THEN conjunct2, THEN conjunct2, THEN conjunct2, THEN conjunct2, THEN conjunct2,
      rule_format, OF ia(3) p' e'' rj] ia(2)
  have C4: "fst (get 1 (snd (pipe example_env 0 (Fn rejecting_fn) [] world_deferred5)))
      = Promise (Rejected (Err ''late''))"
    by simp
  from A B C1 C2 C3 C4 show ?thesis by (simp add: na(3) nth_append)
qed

section \<open>Delay and retry\<close>

text \<open>
  The retry loop on a rejected promise: every index from \<open>i\<close> to
  \<open>attempts - 1\<close> passes through the catch block, and the last one throws
  the error again.
\<close>

lemma retry_loop_rejected:
  "i < attempts \<Longrightarrow>
   retry_loop attempts i (Promise (Rejected e))
     = (Rejected e, map (\<lambda>k. Caught k e) [i..attempts - 1])"
proof (induction attempts i "Promise (Rejected e)" rule: retry_loop.induct)
  case (1 attempts i)
  show ?case
  proof (cases "i = attempts - 1")
    case True
    with "1.prems" have "retry_loop attempts i (Promise (Rejected e)) = (Rejected e, [Caught i e])"
      by (subst retry_loop.simps) simp
    with True show ?thesis by simp
  next
    case False
    with "1.prems" have lt: "i + 1 < attempts" by simp
    from "1.prems" False have
      "retry_loop attempts i (Promise (Rejected e))
         = (fst (retry_loop attempts (i + 1) (Promise (Rejected e))),
            Caught i e # snd (retry_loop attempts (i + 1) (Promise (Rejected e))))"
      by (subst retry_loop.simps) (simp split: prod.splits)
    moreover from "1.hyps" [OF "1.prems" _ False lt]
    have "retry_loop attempts (i + 1) (Promise (Rejected e))
            = (Rejected e, map (\<lambda>k. Caught k e) [i + 1..attempts - 1])"
      by simp
    moreover from "1.prems" have "[i..attempts - 1] = i # [i + 1..attempts - 1]"
      by (simp add: upto_rec1)
    ultimately show ?thesis by simp
  qed
qed

lemma retry_loop_zero: "attempts \<le> i \<Longrightarrow> retry_loop attempts i v = (Fulfilled Undefined, [])"
  by (subst retry_loop.simps) simp

text \<open>
  In immediate mode the transformer of \<^verbatim>\<open>retry\<close> receives the payload itself;
  when that is a rejected promise, each of the \<open>attempts\<close> attempts observes
  the rejection and the last one throws it again.
\<close>

lemma retry_immediate_rejected:
  assumes "\<not> isAsync (heap w ! a)" and "val (heap w ! a) = Promise (Rejected e)"
    and "1 \<le> attempts"
  shows "retry env a attempts w =
           (Inr (length (heap w)),
            w\<lparr>currentValue := Promise (Rejected e),
              trace := trace w @ Invoked (RetryFn attempts) Null [Promise (Rejected e)]
                         # map (\<lambda>k. Caught k e) [0..attempts - 1],
              heap := heap w @ [\<lparr>val = Promise (Rejected e), errorHandler = NoopHandler,
                                   isAsync = False\<rparr>]\<rparr>)"
proof -
  from assms(3) have "retry_loop attempts 0 (Promise (Rejected e))
      = (Rejected e, map (\<lambda>k. Caught k e) [0..attempts - 1])"
    by (intro retry_loop_rejected) simp
  with assms(1,2) show ?thesis
    by (simp add: retry_def pipe_def Let_def handleSyncTransformation_def prepare_eq_spec
        executeTransformation_def determineFinalValue_eq_spec new_Flow_eq index_def)
qed

lemma world_rejected_facts:
  "0 < length (heap world_rejected)" "isAsync (heap world_rejected ! 0)"
  "settle_of (val (heap world_rejected ! 0)) = Rejected (Err ''boom'')"
  "length (heap world_rejected) = 1"
  by (simp_all add: world_rejected_eq)

text \<open>
  C5, as the claim states it, fails: on a deferred container whose payload is
  rejected, the pending computation of the stage stops at its first
  \<^verbatim>\<open>await\<close>, so the transformer of \<^verbatim>\<open>retry\<close> is not invoked and no attempt
  observes anything. Here \<^verbatim>\<open>flow(p).retry(3)\<close> for \<open>p\<close> rejected with
  \<open>Err ''boom''\<close>: the trace stays empty.
\<close>

theorem retry_deferred_makes_no_attempt:
  "trace (snd (retry example_env 0 3 world_rejected)) = [] \<and>
   Caught 0 (Err ''boom'') \<notin> set (trace (snd (retry example_env 0 3 world_rejected))) \<and>
   fst (get 1 (snd (retry example_env 0 3 world_rejected))) = Promise (Rejected (Err ''boom''))"
proof -
  from pipe_async_unsettled [OF world_rejected_facts(2,3), of example_env "Fn (RetryFn 3)" "[]"]
  have "retry example_env 0 3 world_rejected =
          (Inr 1, world_rejected\<lparr>currentValue := val (heap world_rejected ! 0),
             heap := heap world_rejected @
               [\<lparr>val = Promise (Rejected (Err ''boom'')), errorHandler = NoopHandler,
                 isAsync = True\<rparr>]\<rparr>)"
    by (simp add: retry_def world_rejected_facts(4))
  then show ?thesis
    by (simp add: world_rejected_eq get_def Let_def promise_resolve_def)
qed

text \<open>
  C5, amended. On a deferred container whose payload settles as a rejection,
  \<^verbatim>\<open>retry(attempts)\<close>, for any number of attempts, returns a new deferred
  container whose payload is rejected with the same error, which the accessor
  hands out. Nothing is invoked, neither the transformer of \<^verbatim>\<open>retry\<close> nor
  anything upstream: the trace and the caller's state are unchanged.
\<close>

theorem retry_deferred_rejection:
  assumes "a < length (heap w)" and "isAsync (heap w ! a)"
    and "settle_of (val (heap w ! a)) = Rejected e"
  shows "retry env a attempts w =
           (Inr (length (heap w)),
            w\<lparr>currentValue := val (heap w ! a),
              heap := heap w @ [\<lparr>val = Promise (Rejected e), errorHandler = NoopHandler,
                                   isAsync = True\<rparr>]\<rparr>) \<and>
         fst (get (length (heap w)) (snd (retry env a attempts w))) = Promise (Rejected e) \<and>
         trace (snd (retry env a attempts w)) = trace w \<and>
         user (snd (retry env a attempts w)) = user w"
proof -
  from pipe_async_unsettled [OF assms(2,3), of env "Fn (RetryFn attempts)" "[]"]
  have "retry env a attempts w =
           (Inr (length (heap w)),
            w\<lparr>currentValue := val (heap w ! a),
              heap := heap w @ [\<lparr>val = Promise (Rejected e), errorHandler = NoopHandler,
                                   isAsync = True\<rparr>]\<rparr>)"
    by (simp add: retry_def)
  then show ?thesis by (simp add: get_new promise_resolve_def)
qed

theorem retry_deferred_rejection_witness:
  "fst (retry example_env 0 3 world_rejected) = Inr 1 \<and>
   fst (get 1 (snd (retry example_env 0 3 world_rejected))) = Promise (Rejected (Err ''boom'')) \<and>
   trace (snd (retry example_env 0 3 world_rejected)) = trace world_rejected \<and>
   user (snd (retry example_env 0 3 world_rejected)) = user world_rejected"
proof -
  note T = retry_deferred_rejection [OF world_rejected_facts(1,2,3), of example_env 3]
  from T [THEN conjunct1] have "fst (retry example_env 0 3 world_rejected) = Inr 1"
    by (simp add: world_rejected_facts(4))
  with T [THEN conjunct2] show ?thesis
    by (simp add: world_rejected_facts(4))
qed

text \<open>
  C10, as the claim states it, fails on a deferred container whose payload is
  rejected: \<^verbatim>\<open>flow(p).retry(0)\<close> for \<open>p\<close> rejected with \<open>Err ''boom''\<close>
  resolves to that rejection, not to \<^verbatim>\<open>undefined\<close>.
\<close>

theorem retry_zero_keeps_rejection:
  "fst (get 1 (snd (retry example_env 0 0 world_rejected))) = Promise (Rejected (Err ''boom''))"
proof -
  from pipe_async_unsettled [OF world_rejected_facts(2,3), of example_env "Fn (RetryFn 0)" "[]"]
  have "retry example_env 0 0 world_rejected =
          (Inr 1, world_rejected\<lparr>currentValue := val (heap world_rejected ! 0),
             heap := heap world_rejected @
               [\<lparr>val = Promise (Rejected (Err ''boom'')), errorHandler = NoopHandler,
                 isAsync = True\<rparr>]\<rparr>)"
    by (simp add: retry_def world_rejected_facts(4))
  then show ?thesis
    by (simp add: world_rejected_eq get_def Let_def promise_resolve_def)
qed

text \<open>
  C10, amended. On an immediate container, and on a deferred container whose
  payload is fulfilled, \<^verbatim>\<open>retry(0)\<close> returns a container that resolves to
  \<^verbatim>\<open>undefined\<close>: the loop of the transformer runs no iteration and the
  transformer falls through.
\<close>

theorem retry_zero_resolves_to_undefined:
  assumes "a < length (heap w)"
    and "isAsync (heap w ! a) \<longrightarrow> settle_of (val (heap w ! a)) = Fulfilled v"
  shows "fst (retry env a 0 w) = Inr (length (heap w)) \<and>
         settle_of (fst (get (length (heap w)) (snd (retry env a 0 w)))) = Fulfilled Undefined \<and>
         (isAsync (heap (snd (retry env a 0 w)) ! length (heap w)) = isAsync (heap w ! a))"
proof -
  let ?c = "heap w ! a"
  let ?w0 = "w\<lparr>currentValue := val ?c\<rparr>"
  have ex: "executeTransformation env (Fn (RetryFn 0)) Null (Arr [x]) ?w0
          = (Return (Promise (Fulfilled Undefined)),
             ?w0\<lparr>trace := trace ?w0 @ [Invoked (RetryFn 0) Null [x]]\<rparr>)" for x
    by (simp add: executeTransformation_def retry_loop_zero)
  have p: "prepareTransformationArgs x [] = (Null, Arr [x])" for x
    by (simp add: prepare_eq_spec)
  have d: "determineFinalValue r x [] = r" for r x
    by (simp add: determineFinalValue_eq_spec)
  show ?thesis
  proof (cases "isAsync ?c")
    case False
    from pipe_sync_return [OF False p ex] show ?thesis
      by (simp add: retry_def get_new d False)
  next
    case True
    with assms(2) have s: "settle_of (val ?c) = Fulfilled v" by simp
    from pipe_async_return [OF True s p ex] show ?thesis
      by (simp add: retry_def get_new d promise_resolve_def True)
  qed
qed

theorem retry_zero_resolves_to_undefined_witness:
  "settle_of (fst (get 1 (snd (retry example_env 0 0 world5)))) = Fulfilled Undefined \<and>
   settle_of (fst (get 1 (snd (retry example_env 0 0 world_deferred5)))) = Fulfilled Undefined"
proof -
  have a: "0 < length (heap world5)" "isAsync (heap world5 ! 0) \<longrightarrow>
        settle_of (val (heap world5 ! 0)) = Fulfilled (Num 5)"
    "0 < length (heap world_deferred5)" "isAsync (heap world_deferred5 ! 0) \<longrightarrow>
        settle_of (val (heap world_deferred5 ! 0)) = Fulfilled (Num 5)"
    "length (heap world5) = 1" "length (heap world_deferred5) = 1"
    by (simp_all add: world5_eq world_deferred5_eq)
  from retry_zero_resolves_to_undefined [OF a(1,2), of example_env]
    retry_zero_resolves_to_undefined [OF a(3,4), of example_env] a(5,6)
  show ?thesis by simp
qed

text \<open>
  C2 fails on the code: \<^verbatim>\<open>delay\<close> is a \<^verbatim>\<open>pipe\<close> call, and a stage on an
  immediate container goes through \<open>handleSyncTransformation\<close>, which creates
  the new container in immediate mode. Here \<^verbatim>\<open>flow(5).delay(10)\<close>: the new
  container is immediate, its payload is the promise of the async transformer,
  and the accessor hands out that payload as it is.
\<close>

theorem delay_on_immediate_is_not_deferred:
  "fst (delay example_env 0 10 world5) = Inr 1 \<and>
   heap (snd (delay example_env 0 10 world5)) ! 1
     = \<lparr>val = Promise (Fulfilled (Num 5)), errorHandler = NoopHandler, isAsync = False\<rparr> \<and>
   \<not> isAsync (heap (snd (delay example_env 0 10 world5)) ! 1)"
  by (simp add: delay_def pipe_def Let_def handleSyncTransformation_def prepare_eq_spec
      executeTransformation_def determineFinalValue_eq_spec new_Flow_eq index_def world5_eq)

text \<open>In general a stage, \<^verbatim>\<open>delay\<close> included, keeps the mode of its container.\<close>

lemma delay_keeps_mode:
  assumes "fst (delay env a ms w) = Inr b"
  shows "b = length (heap w) \<and> isAsync (heap (snd (delay env a ms w)) ! b) = isAsync (heap w ! a)"
  using pipe_new_container [of env a "Fn (DelayFn ms)" "[]" w b] assms
  by (auto simp: delay_def)

section \<open>The call convention of a stage\<close>

lemma call_fn_user:
  "user w' = user w \<Longrightarrow>
     user (snd (call_fn env f ctx xs w')) = user (snd (call_fn env f ctx xs w))"
  by (cases f) (simp_all split: prod.splits)

text \<open>
  What a stage with a callable transformer and an argument array does, in
  terms of the call of \<open>f\<close> with the binding \<open>ctx\<close> and the arguments \<open>xs\<close>.
\<close>

lemma pipe_runs_callable:
  assumes mode: "if isAsync (heap w ! a) then settle_of (val (heap w ! a)) = Fulfilled v
                 else val (heap w ! a) = v"
    and p: "prepareTransformationArgs v args = (ctx, Arr xs)"
  shows "(\<forall>r. fst (call_fn env f ctx xs w) = Return r \<longrightarrow>
            user (snd (pipe env a (Fn f) args w)) = user (snd (call_fn env f ctx xs w)) \<and>
            (\<not> isAsync (heap w ! a) \<longrightarrow>
               fst (get (length (heap w)) (snd (pipe env a (Fn f) args w)))
                 = determineFinalValue r v args) \<and>
            (isAsync (heap w ! a) \<longrightarrow>
               fst (get (length (heap w)) (snd (pipe env a (Fn f) args w)))
                 = Promise (case settle_of r of
                              Fulfilled x \<Rightarrow> settle_of (determineFinalValue x v args)
                            | Rejected e \<Rightarrow> Rejected e
                            | Forever \<Rightarrow> Forever))) \<and>
         (\<forall>e. fst (call_fn env f ctx xs w) = Throw e \<longrightarrow>
            (\<not> isAsync (heap w ! a) \<longrightarrow>
               handler_calls (trace (snd (pipe env a (Fn f) args w)))
                 = handler_calls (trace w) @ [Handled (errorHandler (heap w ! a)) e]) \<and>
            (isAsync (heap w ! a) \<longrightarrow>
               fst (get (length (heap w)) (snd (pipe env a (Fn f) args w)))
                 = Promise (Rejected e)))"
proof -
  let ?c = "heap w ! a"
  let ?w0 = "w\<lparr>currentValue := val ?c\<rparr>"
  let ?w0' = "?w0\<lparr>trace := trace ?w0 @ [Invoked f ctx xs]\<rparr>"
  let ?h = "errorHandler ?c"
  have ex: "executeTransformation env (Fn f) ctx (Arr xs) ?w0 = call_fn env f ctx xs ?w0'"
    by (simp add: executeTransformation_def)
  have fst_eq: "fst (call_fn env f ctx xs ?w0') = fst (call_fn env f ctx xs w)"
    by (rule call_fn_fst_user) simp
  have user_eq: "user (snd (call_fn env f ctx xs ?w0')) = user (snd (call_fn env f ctx xs w))"
    by (rule call_fn_user) simp
  obtain c w1 where e: "executeTransformation env (Fn f) ctx (Arr xs) ?w0 = (c, w1)"
    by (cases "executeTransformation env (Fn f) ctx (Arr xs) ?w0")
  from e ex fst_eq have c: "fst (call_fn env f ctx xs w) = c" by simp
  from e ex user_eq have u1: "user w1 = user (snd (call_fn env f ctx xs w))" by simp
  show ?thesis
  proof (cases "isAsync ?c")
    case False
    with mode p have p': "prepareTransformationArgs (val ?c) args = (ctx, Arr xs)"
      and v: "val ?c = v" by simp_all
    show ?thesis
    proof (cases c)
      case (Return r)
      with e have "executeTransformation env (Fn f) ctx (Arr xs) ?w0 = (Return r, w1)" by simp
      from pipe_sync_return [OF False p' this] c Return u1 v False show ?thesis
        by (simp add: get_new)
    next
      case (Throw x)
      with e have e': "executeTransformation env (Fn f) ctx (Arr xs) ?w0 = (Throw x, w1)" by simp
      from executeTransformation_handler_calls [of env "Fn f" ctx "Arr xs" ?w0] e
      have t1: "handler_calls (trace w1) = handler_calls (trace w)" by simp
      obtain c2 w2 where
        h: "call_fn env ?h (FlowRef a) [x] (w1\<lparr>trace := trace w1 @ [Handled ?h x]\<rparr>) = (c2, w2)"
        by (cases "call_fn env ?h (FlowRef a) [x] (w1\<lparr>trace := trace w1 @ [Handled ?h x]\<rparr>)")
      from call_fn_handler_calls [of env ?h "FlowRef a" "[x]"
          "w1\<lparr>trace := trace w1 @ [Handled ?h x]\<rparr>"] h t1
      have t2: "handler_calls (trace w2) = handler_calls (trace w) @ [Handled ?h x]"
        by (simp add: handler_calls_def [of "[Handled _ _]"])
      from pipe_sync_throw [OF False p' e' h] t2
      have "handler_calls (trace (snd (pipe env a (Fn f) args w)))
              = handler_calls (trace w) @ [Handled ?h x]"
        by (cases c2) simp_all
      with c Throw False show ?thesis by simp
    qed
  next
    case True
    with mode have s: "settle_of (val ?c) = Fulfilled v" by simp
    show ?thesis
    proof (cases c)
      case (Return r)
      with e have "executeTransformation env (Fn f) ctx (Arr xs) ?w0 = (Return r, w1)" by simp
      from pipe_async_return [OF True s p this] c Return u1 True show ?thesis
        by (simp add: get_new promise_resolve_def)
    next
      case (Throw x)
      with e have "executeTransformation env (Fn f) ctx (Arr xs) ?w0 = (Throw x, w1)" by simp
      from pipe_async_throw [OF True s p this] c Throw True show ?thesis
        by (simp add: get_new promise_resolve_def)
    qed
  qed
qed

text \<open>
  C3. For every \<^verbatim>\<open>pipe\<close> invocation the binding and the argument list are
  those of the specification: with an override as first extra argument, its
  context (default \<^verbatim>\<open>null\<close>) and its args (default the empty sequence),
  without the wrapped value; otherwise \<^verbatim>\<open>null\<close> and the wrapped value followed
  by all extra arguments. A callable transformer \<open>f\<close> is called with exactly
  that binding \<open>ctx\<close> and that argument list \<open>xs\<close>, on the payload in
  immediate mode and on the settled payload in deferred mode: the call is
  recorded, and what the stage hands on is what the call \<open>f ctx xs\<close> gives.
  When the call returns, the caller's state is the one it leaves and the
  stage's result is its return value, shaped; when it throws, the thrown error
  is what the handler receives in immediate mode and what the new payload is
  rejected with in deferred mode.
\<close>

theorem pipe_call_convention:
  "prepareTransformationArgs v args = spec_call_convention v args \<and>
   (a < length (heap w) \<longrightarrow>
    (if isAsync (heap w ! a) then settle_of (val (heap w ! a)) = Fulfilled v
     else val (heap w ! a) = v) \<longrightarrow>
    spec_call_convention v args = (ctx, Arr xs) \<longrightarrow>
      (\<exists>evs. trace (snd (pipe env a (Fn f) args w)) = trace w @ Invoked f ctx xs # evs) \<and>
      (\<forall>r. fst (call_fn env f ctx xs w) = Return r \<longrightarrow>
         user (snd (pipe env a (Fn f) args w)) = user (snd (call_fn env f ctx xs w)) \<and>
         (\<not> isAsync (heap w ! a) \<longrightarrow>
            fst (get (length (heap w)) (snd (pipe env a (Fn f) args w)))
              = spec_shape r v args) \<and>
         (isAsync (heap w ! a) \<longrightarrow>
            fst (get (length (heap w)) (snd (pipe env a (Fn f) args w)))
              = Promise (case settle_of r of
                           Fulfilled x \<Rightarrow> settle_of (spec_shape x v args)
                         | Rejected e \<Rightarrow> Rejected e
                         | Forever \<Rightarrow> Forever))) \<and>
      (\<forall>e. fst (call_fn env f ctx xs w) = Throw e \<longrightarrow>
         (\<not> isAsync (heap w ! a) \<longrightarrow>
            handler_calls (trace (snd (pipe env a (Fn f) args w)))
              = handler_calls (trace w) @ [Handled (errorHandler (heap w ! a)) e]) \<and>
         (isAsync (heap w ! a) \<longrightarrow>
            fst (get (length (heap w)) (snd (pipe env a (Fn f) args w)))
              = Promise (Rejected e))))"
proof (intro conjI impI)
  show "prepareTransformationArgs v args = spec_call_convention v args"
    by (rule prepare_eq_spec)
next
  assume mode: "if isAsync (heap w ! a) then settle_of (val (heap w ! a)) = Fulfilled v
                else val (heap w ! a) = v"
    and "spec_call_convention v args = (ctx, Arr xs)"
  then have p: "prepareTransformationArgs v args = (ctx, Arr xs)"
    by (simp add: prepare_eq_spec)
  from pipe_invokes_callable [OF mode p, of env f]
  show "\<exists>evs. trace (snd (pipe env a (Fn f) args w)) = trace w @ Invoked f ctx xs # evs" .
  note R = pipe_runs_callable [OF mode p, of env f, unfolded determineFinalValue_eq_spec]
  from R [THEN conjunct1]
  show "\<forall>r. fst (call_fn env f ctx xs w) = Return r \<longrightarrow>
         user (snd (pipe env a (Fn f) args w)) = user (snd (call_fn env f ctx xs w)) \<and>
         (\<not> isAsync (heap w ! a) \<longrightarrow>
            fst (get (length (heap w)) (snd (pipe env a (Fn f) args w)))
              = spec_shape r v args) \<and>
         (isAsync (heap w ! a) \<longrightarrow>
            fst (get (length (heap w)) (snd (pipe env a (Fn f) args w)))
              = Promise (case settle_of r of
                           Fulfilled x \<Rightarrow> settle_of (spec_shape x v args)
                         | Rejected e \<Rightarrow> Rejected e
                         | Forever \<Rightarrow> Forever))" .
  from R [THEN conjunct2]
  show "\<forall>e. fst (call_fn env f ctx xs w) = Throw e \<longrightarrow>
         (\<not> isAsync (heap w ! a) \<longrightarrow>
            handler_calls (trace (snd (pipe env a (Fn f) args w)))
              = handler_calls (trace w) @ [Handled (errorHandler (heap w ! a)) e]) \<and>
         (isAsync (heap w ! a) \<longrightarrow>
            fst (get (length (heap w)) (snd (pipe env a (Fn f) args w)))
              = Promise (Rejected e))" .
qed

theorem pipe_call_convention_witness:
  "(\<exists>evs. trace (snd (pipe example_env 0 (Fn double_fn) [Obj (Str ''ctx'') (Arr [Num 7])] world5))
      = trace world5 @ Invoked double_fn (Str ''ctx'') [Num 7] # evs) \<and>
   fst (get 1 (snd (pipe example_env 0 (Fn double_fn) [Obj (Str ''ctx'') (Arr [Num 7])] world5)))
      = Num 14 \<and>
   user (snd (pipe example_env 0 (Fn double_fn) [Obj (Str ''ctx'') (Arr [Num 7])] world5)) = 1 \<and>
   (\<exists>evs. trace (snd (pipe example_env 0 (Fn double_fn) [Num 1, Num 2] world5))
      = trace world5 @ Invoked double_fn Null [Num 5, Num 1, Num 2] # evs) \<and>
   fst (get 1 (snd (pipe example_env 0 (Fn double_fn) [Num 1, Num 2] world5))) = Num 10 \<and>
   handler_calls (trace (snd (pipe example_env 0 (Fn boom_fn) [Num 1] world5_quiet)))
      = [Handled quiet_handler (Err ''boom'')] \<and>
   fst (get 1 (snd (pipe example_env 0 (Fn double_fn) [Obj Undefined (Arr [Num 7])]
         world_deferred5)))
      = Promise (Fulfilled (Num 14))"
proof -
  have a: "0 < length (heap world5)" "length (heap world5) = 1"
    "\<not> isAsync (heap world5 ! 0)"
    "if isAsync (heap world5 ! 0) then settle_of (val (heap world5 ! 0)) = Fulfilled (Num 5)
     else val (heap world5 ! 0) = Num 5"
    by (simp_all add: world5_eq)
  have s1: "spec_call_convention (Num 5) [Obj (Str ''ctx'') (Arr [Num 7])]
              = (Str ''ctx'', Arr [Num 7])"
    and s2: "spec_call_convention (Num 5) [Num 1, Num 2] = (Null, Arr [Num 5, Num 1, Num 2])"
    and s3: "spec_call_convention (Num 5) [Num 1] = (Null, Arr [Num 5, Num 1])"
    and s4: "spec_call_convention (Num 5) [Obj Undefined (Arr [Num 7])] = (Null, Arr [Num 7])"
    by simp_all
  have c1: "fst (call_fn example_env double_fn (Str ''ctx'') [Num 7] world5) = Return (Num 14)"
    "user (snd (call_fn example_env double_fn (Str ''ctx'') [Num 7] world5)) = 1"
    and c2: "fst (call_fn example_env double_fn Null [Num 5, Num 1, Num 2] world5)
               = Return (Num 10)"
    by (simp_all add: double_fn_def world5_eq)
  have sh: "spec_shape (Num 14) (Num 5) [Obj (Str ''ctx'') (Arr [Num 7])] = Num 14"
    "spec_shape (Num 10) (Num 5) [Num 1, Num 2] = Num 10"
    "settle_of (spec_shape (Num 14) (Num 5) [Obj Undefined (Arr [Num 7])]) = Fulfilled (Num 14)"
    by (simp_all add: returnOriginal_def returnBoth_def)
  note T1 = pipe_call_convention [where v = "Num 5" and args = "[Obj (Str ''ctx'') (Arr [Num 7])]"
      and a = 0 and w = world5 and env = example_env and f = double_fn,
      THEN conjunct2, rule_format, OF a(1) a(4) s1]
  from T1 [THEN conjunct1]
  have A1: "\<exists>evs. trace (snd (pipe example_env 0 (Fn double_fn)
      [Obj (Str ''ctx'') (Arr [Num 7])] world5))
      = trace world5 @ Invoked double_fn (Str ''ctx'') [Num 7] # evs" .
  from T1 [THEN conjunct2, THEN conjunct1, rule_format, OF c1(1)] a(2,3) sh(1) c1(2)
  have A2: "fst (get 1 (snd (pipe example_env 0 (Fn double_fn)
      [Obj (Str ''ctx'') (Arr [Num 7])] world5))) = Num 14"
    and A3: "user (snd (pipe example_env 0 (Fn double_fn)
      [Obj (Str ''ctx'') (Arr [Num 7])] world5)) = 1"
    by simp_all
  note T2 = pipe_call_convention [where v = "Num 5" and args = "[Num 1, Num 2]"
      and a = 0 and w = world5 and env = example_env and f = double_fn,
      THEN conjunct2, rule_format, OF a(1) a(4) s2]
  from T2 [THEN conjunct1]
  have B1: "\<exists>evs. trace (snd (pipe example_env 0 (Fn double_fn) [Num 1, Num 2] world5))
      = trace world5 @ Invoked double_fn Null [Num 5, Num 1, Num 2] # evs" .
  from T2 [THEN conjunct2, THEN conjunct1, rule_format, OF c2] a(2,3) sh(2)
  have B2: "fst (get 1 (snd (pipe example_env 0 (Fn double_fn) [Num 1, Num 2] world5))) = Num 10"
    by simp
  have q: "0 < length (heap world5_quiet)" "\<not> isAsync (heap world5_quiet ! 0)"
    "if isAsync (heap world5_quiet ! 0)
     then settle_of (val (heap world5_quiet ! 0)) = Fulfilled (Num 5)
     else val (heap world5_quiet ! 0) = Num 5"
    "errorHandler (heap world5_quiet ! 0) = quiet_handler"
    "handler_calls (trace world5_quiet) = []"
    by (simp_all add: world5_quiet_eq handler_calls_def)
  have c3: "fst (call_fn example_env boom_fn Null [Num 5, Num 1] world5_quiet)
      = Throw (Err ''boom'')"
    by (simp add: boom_fn_def world5_quiet_eq)
  note T3 = pipe_call_convention [where v = "Num 5" and args = "[Num 1]"
      and a = 0 and w = world5_quiet and env = example_env and f = boom_fn,
      THEN conjunct2, rule_format, OF q(1) q(3) s3]
  from T3 [THEN conjunct2, THEN conjunct2, rule_format, OF c3] q(2,4,5)
  have C: "handler_calls (trace (snd (pipe example_env 0 (Fn boom_fn) [Num 1] world5_quiet)))
      = [Handled quiet_handler (Err ''boom'')]"
    by simp
  have d: "0 < length (heap world_deferred5)" "isAsync (heap world_deferred5 ! 0)"
    "if isAsync (heap world_deferred5 ! 0)
     then settle_of (val (heap world_deferred5 ! 0)) = Fulfilled (Num 5)
     else val (heap world_deferred5 ! 0) = Num 5"
    "length (heap world_deferred5) = 1"
    by (simp_all add: world_deferred5_eq)
  have c4: "fst (call_fn example_env double_fn Null [Num 7] world_deferred5) = Return (Num 14)"
    by (simp add: double_fn_def world_deferred5_eq)
  note T4 = pipe_call_convention [where v = "Num 5" and args = "[Obj Undefined (Arr [Num 7])]"
      and a = 0 and w = world_deferred5 and env = example_env and f = double_fn,
      THEN conjunct2, rule_format, OF d(1) d(3) s4]
  from T4 [THEN conjunct2, THEN conjunct1, rule_format, OF c4] d(2,4) sh(3)
  have D: "fst (get 1 (snd (pipe example_env 0 (Fn double_fn) [Obj Undefined (Arr [Num 7])]
      world_deferred5))) = Promise (Fulfilled (Num 14))"
    by simp
  from A1 A2 A3 B1 B2 C D show ?thesis by blast
qed

end
